theory Spec2Isabelle
  imports Complex_Main "HOL-Library.Log_Nat"
begin

section \<open>Numbers and errors\<close>

text \<open>
  The program computes with Python floats.  The embedding reads a float as a real number
  and \<open>+\<close>, \<open>-\<close>, \<open>*\<close>, \<open>/\<close> as the exact operations, the data model the
  specification gives (\<open>Vector(x, y: real)\<close>); \<open>e ** 0.5\<close> on a non-negative
  \<open>e\<close> is \<open>sqrt e\<close> and \<open>e ** 3\<close> is \<open>e ^ 3\<close>.  Rounding, overflow and the
  special values of binary64 are outside this reading, with two exceptions.  The quotient
  \<open>2.0 / delta_t\<close> that bounds the trails is rounded to binary64, because the number
  of entries kept is its floor.  And for the properties that compare computed coordinates
  (the bounding box and the translations) the rounding of \<open>+\<close> and \<open>-\<close> is
  written out as well, in the definitions named \<open>_f64\<close>.  In floats
  \<open>abs(d) ** 3\<close> raises \<open>OverflowError\<close> when the finite result is out of range
  and is \<open>0.0\<close> for a tiny \<open>d\<close>; the exact cube has neither case, and a
  statement below about a call of \<open>update\<close> is about the exact reading of its
  force terms.

  A float division by zero raises \<open>ZeroDivisionError\<close>, and \<open>list.pop(0)\<close> on an
  empty list raises \<open>IndexError\<close>: both are values of the result type.
\<close>

datatype error = ZeroDivisionError | IndexError

definition DEFAULT_DELTA_T :: real where
  "DEFAULT_DELTA_T = 5 / 100"

definition G :: real where
  "G = 1"

section \<open>Floats as binary64 numbers\<close>

text \<open>
  A Python float is an IEEE 754 binary64 number, and \<open>a + b\<close>, \<open>a - b\<close> are the
  exact sum and difference rounded to the nearest such number, ties to the even
  significand.  \<open>binary64 x\<close> is that rounding of the real \<open>x\<close>: the finite numbers
  are the multiples \<open>m * 2 ^ e\<close> with \<open>\<bar>m\<bar> < 2 ^ 53\<close> and \<open>e \<ge> -1074\<close>, and
  \<open>binary64_exponent x\<close> is the exponent \<open>e\<close> of the grid around \<open>x\<close>.  A result
  of magnitude \<open>2 ^ 1024\<close> or more stands for an infinity.
\<close>

definition round_half_even :: "real \<Rightarrow> int" where
  "round_half_even x =
     (let n = \<lfloor>x\<rfloor>; r = x - of_int n
      in if r < 1 / 2 then n else if 1 / 2 < r then n + 1 else if even n then n else n + 1)"

definition binary64_exponent :: "real \<Rightarrow> int" where
  "binary64_exponent x = max (bitlen \<lfloor>\<bar>x\<bar> * 2 ^ 1074\<rfloor> - 1127) (- 1074)"

definition binary64 :: "real \<Rightarrow> real" where
  "binary64 x =
     of_int (round_half_even (x / 2 powi binary64_exponent x)) * 2 powi binary64_exponent x"

section \<open>Vector\<close>

text \<open>
  The frozen dataclass \<open>Vector(x, y)\<close>; the fields are named \<open>vec_x\<close> and
  \<open>vec_y\<close> here.  \<open>__add__\<close> and \<open>__sub__\<close> return \<open>NotImplemented\<close> for an
  operand that is not a \<open>Vector\<close>; the types exclude that operand.
\<close>

datatype Vector = Vector (vec_x: real) (vec_y: real)

definition Vector_add :: "Vector \<Rightarrow> Vector \<Rightarrow> Vector" where
  "Vector_add self other = Vector (vec_x self + vec_x other) (vec_y self + vec_y other)"

definition Vector_sub :: "Vector \<Rightarrow> Vector \<Rightarrow> Vector" where
  "Vector_sub self other = Vector (vec_x self - vec_x other) (vec_y self - vec_y other)"

definition Vector_mul :: "Vector \<Rightarrow> real \<Rightarrow> Vector" where
  "Vector_mul self c = Vector (c * vec_x self) (c * vec_y self)"

definition Vector_rmul :: "Vector \<Rightarrow> real \<Rightarrow> Vector" where
  "Vector_rmul self c = Vector_mul self c"

definition Vector_truediv :: "Vector \<Rightarrow> real \<Rightarrow> error + Vector" where
  "Vector_truediv self d =
     (if d = 0 then Inl ZeroDivisionError else Inr (Vector (vec_x self / d) (vec_y self / d)))"

definition Vector_abs :: "Vector \<Rightarrow> real" where
  "Vector_abs self = sqrt (vec_x self * vec_x self + vec_y self * vec_y self)"

section \<open>BBox, Circle, Curve, Scene\<close>

text \<open>
  The fields \<open>min\<close>, \<open>max\<close> of \<open>BBox\<close> and \<open>o\<close>, \<open>r\<close> of \<open>Circle\<close> are
  named \<open>bbox_min\<close>, \<open>bbox_max\<close>, \<open>circle_o\<close> and \<open>circle_r\<close>.  The cached
  properties \<open>as_tuple\<close> and \<open>bbox\<close> are functions of immutable fields.
\<close>

datatype BBox = BBox (bbox_min: Vector) (bbox_max: Vector)

definition BBox_as_tuple :: "BBox \<Rightarrow> real \<times> real \<times> real \<times> real" where
  "BBox_as_tuple self =
     (vec_x (bbox_min self), vec_y (bbox_min self), vec_x (bbox_max self), vec_y (bbox_max self))"

definition BBox_add :: "BBox \<Rightarrow> Vector \<Rightarrow> BBox" where
  "BBox_add self d = BBox (Vector_add (bbox_min self) d) (Vector_add (bbox_max self) d)"

definition BBox_radd :: "BBox \<Rightarrow> Vector \<Rightarrow> BBox" where
  "BBox_radd self d = BBox_add self d"

datatype Circle = Circle (circle_o: Vector) (circle_r: real)

definition Circle_bbox :: "Circle \<Rightarrow> BBox" where
  "Circle_bbox self =
     BBox (Vector (vec_x (circle_o self) - circle_r self) (vec_y (circle_o self) - circle_r self))
          (Vector (vec_x (circle_o self) + circle_r self) (vec_y (circle_o self) + circle_r self))"

definition Circle_add :: "Circle \<Rightarrow> Vector \<Rightarrow> Circle" where
  "Circle_add self d = Circle (Vector_add (circle_o self) d) (circle_r self)"

definition Circle_radd :: "Circle \<Rightarrow> Vector \<Rightarrow> Circle" where
  "Circle_radd self d = Circle_add self d"

datatype Curve = Curve (points: "Vector list")

definition Curve_add :: "Curve \<Rightarrow> Vector \<Rightarrow> Curve" where
  "Curve_add self d = Curve (map (\<lambda>p. Vector_add p d) (points self))"

definition Curve_radd :: "Curve \<Rightarrow> Vector \<Rightarrow> Curve" where
  "Curve_radd self d = Curve_add self d"

text \<open>
  \<open>Circle\<close> and \<open>Curve\<close> are the two subclasses of \<open>Shape\<close>.  The expression
  \<open>shape + d\<close> calls the \<open>__add__\<close> of the shape's own class, and \<open>d + shape\<close>
  ends in its \<open>__radd__\<close>, since \<open>Vector.__add__\<close> returns \<open>NotImplemented\<close>
  for a shape.
\<close>

datatype Shape = Shape_Circle Circle | Shape_Curve Curve

fun Shape_add :: "Shape \<Rightarrow> Vector \<Rightarrow> Shape" where
  "Shape_add (Shape_Circle c) d = Shape_Circle (Circle_add c d)"
| "Shape_add (Shape_Curve c) d = Shape_Curve (Curve_add c d)"

fun Shape_radd :: "Shape \<Rightarrow> Vector \<Rightarrow> Shape" where
  "Shape_radd (Shape_Circle c) d = Shape_Circle (Circle_radd c d)"
| "Shape_radd (Shape_Curve c) d = Shape_Curve (Curve_radd c d)"

datatype Scene = Scene (shapes: "Shape list")

text \<open>
  \<open>Canvas.render_circle\<close> passes \<open>(self.o + c.bbox).as_tuple\<close> to the toolkit's
  \<open>create_oval\<close>; the function below is that tuple, for the canvas origin \<open>o\<close>.
\<close>

definition render_circle :: "Vector \<Rightarrow> Circle \<Rightarrow> real \<times> real \<times> real \<times> real" where
  "render_circle canvas_o c = BBox_as_tuple (BBox_radd (Circle_bbox c) canvas_o)"

text \<open>
  \<open>Vector.__add__\<close>, \<open>Circle.__add__\<close>, \<open>Curve.__add__\<close>, \<open>Circle.bbox\<close> and
  \<open>BBox.__add__\<close> once more, with the rounding of each \<open>+\<close> and \<open>-\<close> written
  out.
\<close>

definition Vector_add_f64 :: "Vector \<Rightarrow> Vector \<Rightarrow> Vector" where
  "Vector_add_f64 self other =
     Vector (binary64 (vec_x self + vec_x other)) (binary64 (vec_y self + vec_y other))"

definition Circle_add_f64 :: "Circle \<Rightarrow> Vector \<Rightarrow> Circle" where
  "Circle_add_f64 self d = Circle (Vector_add_f64 (circle_o self) d) (circle_r self)"

definition Curve_add_f64 :: "Curve \<Rightarrow> Vector \<Rightarrow> Curve" where
  "Curve_add_f64 self d = Curve (map (\<lambda>p. Vector_add_f64 p d) (points self))"

fun Shape_add_f64 :: "Shape \<Rightarrow> Vector \<Rightarrow> Shape" where
  "Shape_add_f64 (Shape_Circle c) d = Shape_Circle (Circle_add_f64 c d)"
| "Shape_add_f64 (Shape_Curve c) d = Shape_Curve (Curve_add_f64 c d)"

text \<open>
  The coordinates that the program holds are floats, the numbers that the rounding
  leaves as they are.  The predicates below say so of the points of a shape: the
  centre of a circle, the points of a curve.
\<close>

definition Vector_is_f64 :: "Vector \<Rightarrow> bool" where
  "Vector_is_f64 v \<longleftrightarrow> binary64 (vec_x v) = vec_x v \<and> binary64 (vec_y v) = vec_y v"

fun Shape_points_f64 :: "Shape \<Rightarrow> bool" where
  "Shape_points_f64 (Shape_Circle c) = Vector_is_f64 (circle_o c)"
| "Shape_points_f64 (Shape_Curve c) = list_all Vector_is_f64 (points c)"

definition Circle_bbox_f64 :: "Circle \<Rightarrow> BBox" where
  "Circle_bbox_f64 self =
     BBox (Vector (binary64 (vec_x (circle_o self) - circle_r self))
                  (binary64 (vec_y (circle_o self) - circle_r self)))
          (Vector (binary64 (vec_x (circle_o self) + circle_r self))
                  (binary64 (vec_y (circle_o self) + circle_r self)))"

definition BBox_add_f64 :: "BBox \<Rightarrow> Vector \<Rightarrow> BBox" where
  "BBox_add_f64 self d = BBox (Vector_add_f64 (bbox_min self) d) (Vector_add_f64 (bbox_max self) d)"

section \<open>Universe\<close>

record Universe =
  yellow_r :: real
  yellow_m :: real
  yellow_p :: Vector
  blue_r :: real
  blue_m :: real
  blue_p :: Vector
  blue_v :: Vector
  blue_trail :: "Vector list"
  white_r :: real
  white_m :: real
  white_p :: Vector
  white_v :: Vector
  white_trail :: "Vector list"

text \<open>
  \<open>Universe.__init__\<close>.  The two divisors are \<open>abs\<close> of the vectors \<open>(200, 0)\<close>
  and \<open>(200, 30)\<close>, and the two radicands are positive.
\<close>

definition Universe_init :: Universe where
  "Universe_init =
     (let yellow_m0 = 5000000; yellow_p0 = Vector 0 0;
          blue_p0 = Vector 200 0; white_p0 = Vector 200 30
      in \<lparr> yellow_r = 50, yellow_m = yellow_m0, yellow_p = yellow_p0,
           blue_r = 15, blue_m = 3000, blue_p = blue_p0,
           blue_v = Vector 0 (- sqrt ((G * yellow_m0) / Vector_abs (Vector_sub blue_p0 yellow_p0))),
           blue_trail = [],
           white_r = 5, white_m = 100, white_p = white_p0,
           white_v = Vector 0 (- sqrt ((G * yellow_m0) / Vector_abs (Vector_sub white_p0 yellow_p0))),
           white_trail = [] \<rparr>)"

definition scene :: "Universe \<Rightarrow> Scene" where
  "scene self =
     Scene [Shape_Circle (Circle (yellow_p self) (yellow_r self)),
            Shape_Circle (Circle (blue_p self) (blue_r self)),
            Shape_Circle (Circle (white_p self) (white_r self))]"

text \<open>
  The loop \<open>while len(trail) > 2.0 / delta_t: trail.pop(0)\<close>.  The quotient is computed
  at every test, so \<open>delta_t = 0\<close> raises at the first one.  It is a float, the exact
  quotient rounded to binary64, and the integer length is compared with that float
  exactly.  From \<open>2 ^ 1024\<close> on the quotient is \<open>inf\<close>, which no length exceeds.
  A negative quotient is below every length: the loop empties the list and then pops
  from the empty list.
\<close>

function pop_while :: "real \<Rightarrow> Vector list \<Rightarrow> error + Vector list" where
  "pop_while delta_t trail =
     (if delta_t = 0 then Inl ZeroDivisionError
      else if binary64 (2 / delta_t) < 2 ^ 1024 \<and> real (length trail) > binary64 (2 / delta_t)
      then (case trail of [] \<Rightarrow> Inl IndexError | p # rest \<Rightarrow> pop_while delta_t rest)
      else Inr trail)"
  by pat_completeness auto
termination
  by (relation "measure (\<lambda>(delta_t, trail). length trail)") auto

text \<open>
  \<open>Universe.update\<close>, statement by statement.  \<open>G * self.yellow_m * d\<close> is
  \<open>Vector.__rmul__\<close> of \<open>d\<close> with the float \<open>G * self.yellow_m\<close>; the quotient by
  \<open>abs(d) ** 3\<close> is \<open>Vector.__truediv__\<close>, which raises when the divisor is zero.
  An error leaves the method at once; the state a failed call leaves behind is not
  part of the result.
\<close>

definition update :: "real \<Rightarrow> Universe \<Rightarrow> error + Universe" where
  "update delta_t self =
     (case pop_while delta_t (blue_trail self @ [blue_p self]) of Inl e \<Rightarrow> Inl e
      | Inr blue_trail' \<Rightarrow>
     let blue_p' = Vector_add (blue_p self) (Vector_mul (blue_v self) delta_t);
         d = Vector_sub blue_p' (yellow_p self)
     in (case Vector_truediv (Vector_rmul d (G * yellow_m self)) (Vector_abs d ^ 3) of
           Inl e \<Rightarrow> Inl e
         | Inr q \<Rightarrow>
     let blue_v' = Vector_sub (blue_v self) (Vector_mul q delta_t)
     in (case pop_while delta_t (white_trail self @ [white_p self]) of Inl e \<Rightarrow> Inl e
         | Inr white_trail' \<Rightarrow>
     let white_p' = Vector_add (white_p self) (Vector_mul (white_v self) delta_t);
         dyellow = Vector_sub white_p' (yellow_p self);
         dblue = Vector_sub white_p' blue_p'
     in (case Vector_truediv (Vector_rmul dyellow (G * yellow_m self)) (Vector_abs dyellow ^ 3) of
           Inl e \<Rightarrow> Inl e
         | Inr qyellow \<Rightarrow>
        (case Vector_truediv (Vector_rmul dblue (G * blue_m self)) (Vector_abs dblue ^ 3) of
           Inl e \<Rightarrow> Inl e
         | Inr qblue \<Rightarrow>
     let white_v' = Vector_sub (Vector_sub (white_v self) (Vector_mul qyellow delta_t))
                               (Vector_mul qblue delta_t)
     in Inr (self\<lparr> blue_trail := blue_trail', blue_p := blue_p', blue_v := blue_v',
                   white_trail := white_trail', white_p := white_p',
                   white_v := white_v' \<rparr>))))))"

text \<open>
  \<open>n\<close> calls of \<open>update(delta_t)\<close> in a row, as the driver's loop makes them.  The
  result lists the states the calls went through, the starting state first and the
  final state last; an error of any call ends the run.
\<close>

fun updates :: "real \<Rightarrow> nat \<Rightarrow> Universe \<Rightarrow> error + Universe list" where
  "updates delta_t 0 self = Inr [self]"
| "updates delta_t (Suc n) self =
     (case update delta_t self of Inl e \<Rightarrow> Inl e
      | Inr self' \<Rightarrow>
          (case updates delta_t n self' of Inl e \<Rightarrow> Inl e
           | Inr states \<Rightarrow> Inr (self # states)))"

section \<open>The specification's update rule\<close>

text \<open>
  The specification's acceleration term, in its words: \<open>-G * mass_other * d / |d|^3\<close>
  with \<open>d = position_self - position_other\<close>.
\<close>

definition spec_acceleration :: "real \<Rightarrow> Vector \<Rightarrow> Vector" where
  "spec_acceleration mass_other d =
     Vector (- G * mass_other * vec_x d / Vector_abs d ^ 3)
            (- G * mass_other * vec_y d / Vector_abs d ^ 3)"

text \<open>
  The velocity of the first satellite after one step if, as the specification's step 3
  reads, the net acceleration summed the terms of all other bodies, the second
  satellite's among them: positions are integrated first, then
  \<open>velocity \<leftarrow> velocity + a * \<Delta>t\<close>.
\<close>

definition blue_v_all_bodies :: "real \<Rightarrow> Universe \<Rightarrow> Vector" where
  "blue_v_all_bodies delta_t self =
     (let blue_p' = Vector_add (blue_p self) (Vector_mul (blue_v self) delta_t);
          white_p' = Vector_add (white_p self) (Vector_mul (white_v self) delta_t);
          a = Vector_add (spec_acceleration (yellow_m self) (Vector_sub blue_p' (yellow_p self)))
                         (spec_acceleration (white_m self) (Vector_sub blue_p' white_p'))
      in Vector_add (blue_v self) (Vector_mul a delta_t))"

section \<open>Example states\<close>

text \<open>
  Two states with distances that are whole numbers.  In the first the three bodies lie
  on a line through the anchor, at distances 5 and 10, with equal masses and at rest.
  In the second the anchor and the first satellite have mass zero, so that the
  satellites drift at constant velocity.
\<close>

definition example_universe :: Universe where
  "example_universe =
     \<lparr> yellow_r = 50, yellow_m = 125, yellow_p = Vector 0 0,
       blue_r = 15, blue_m = 125, blue_p = Vector 3 4, blue_v = Vector 0 0, blue_trail = [],
       white_r = 5, white_m = 125, white_p = Vector 6 8, white_v = Vector 0 0,
       white_trail = [] \<rparr>"

definition drift_universe :: Universe where
  "drift_universe =
     \<lparr> yellow_r = 50, yellow_m = 0, yellow_p = Vector 0 0,
       blue_r = 15, blue_m = 0, blue_p = Vector 3 4, blue_v = Vector 1 0, blue_trail = [],
       white_r = 5, white_m = 100, white_p = Vector 6 8, white_v = Vector 1 0,
       white_trail = [] \<rparr>"

text \<open>
  A third state, in motion: with \<open>delta_t = 1 / 2\<close> the first satellite moves from
  \<open>(1, 4)\<close> to \<open>(3, 4)\<close> and the second from \<open>(6, 6)\<close> to \<open>(6, 8)\<close>.
\<close>

definition moving_universe :: Universe where
  "moving_universe =
     \<lparr> yellow_r = 50, yellow_m = 125, yellow_p = Vector 0 0,
       blue_r = 15, blue_m = 125, blue_p = Vector 1 4, blue_v = Vector 4 0, blue_trail = [],
       white_r = 5, white_m = 100, white_p = Vector 6 6, white_v = Vector 0 4,
       white_trail = [] \<rparr>"

section \<open>Rounding to binary64\<close>

text \<open>The exponent of a number between two powers of two, and the rounding there.\<close>

lemma bitlen_eqI:
  assumes "2 ^ n \<le> x" and "x < 2 ^ Suc n"
  shows "bitlen x = int n + 1"
proof (rule antisym)
  show "bitlen x \<le> int n + 1"
    using assms(2) by (simp add: bitlen_le_iff_power nat_add_distrib)
  have "nat (int n + 1) - 1 = n" by simp
  with assms(1) show "int n + 1 \<le> bitlen x"
    unfolding bitlen_ge_iff_power by simp
qed

lemma binary64_exponent_normal:
  assumes lo: "2 powi e \<le> \<bar>x\<bar>" and hi: "\<bar>x\<bar> < 2 powi (e + 1)" and e: "- 1022 \<le> e"
  shows "binary64_exponent x = e - 52"
proof -
  define n where "n = nat (e + 1074)"
  define k :: nat where "k = 1074"
  have n: "int n = e + int k" using e by (simp add: n_def k_def)
  have "(2::real) powi (e + int k) = 2 powi e * 2 powi (int k)"
    by (rule power_int_add) simp
  then have p: "(2::real) powi e * 2 ^ k = 2 ^ n"
    unfolding n [symmetric] power_int_of_nat by simp
  have "(2::real) powi (e + 1) = 2 powi e * 2"
    by (subst power_int_add) simp_all
  then have p': "(2::real) powi (e + 1) * 2 ^ k = 2 ^ Suc n"
    using p by simp
  have k0: "(0::real) < 2 ^ k" by simp
  have "2 powi e * 2 ^ k \<le> \<bar>x\<bar> * 2 ^ k"
    using lo k0 by (rule mult_right_mono [OF _ less_imp_le])
  then have "of_int (2 ^ n) \<le> \<bar>x\<bar> * 2 ^ k"
    unfolding p by simp
  then have a: "2 ^ n \<le> \<lfloor>\<bar>x\<bar> * 2 ^ k\<rfloor>"
    by (simp only: le_floor_iff)
  have "\<bar>x\<bar> * 2 ^ k < 2 powi (e + 1) * 2 ^ k"
    using hi k0 by (rule mult_strict_right_mono)
  then have "\<bar>x\<bar> * 2 ^ k < of_int (2 ^ Suc n)"
    unfolding p' by simp
  then have b: "\<lfloor>\<bar>x\<bar> * 2 ^ k\<rfloor> < 2 ^ Suc n"
    by (simp only: floor_less_iff)
  have "bitlen \<lfloor>\<bar>x\<bar> * 2 ^ k\<rfloor> = e + int k + 1"
    using bitlen_eqI [OF a b] n by simp
  then have "bitlen \<lfloor>\<bar>x\<bar> * 2 ^ 1074\<rfloor> = e + 1075"
    unfolding k_def by simp
  then show ?thesis
    unfolding binary64_exponent_def using e by simp
qed

lemma round_half_even_of_int: "round_half_even (of_int m) = m"
  by (simp add: round_half_even_def)

lemma round_half_even_half:
  "round_half_even (of_int m + 1 / 2) = (if even m then m else m + 1)"
proof -
  have "\<lfloor>of_int m + (1 / 2 :: real)\<rfloor> = m" by linarith
  then show ?thesis by (simp add: round_half_even_def Let_def)
qed

lemma binary64_normal:
  assumes "2 powi e \<le> \<bar>x\<bar>" and "\<bar>x\<bar> < 2 powi (e + 1)" and "- 1022 \<le> e"
  shows "binary64 x = of_int (round_half_even (x / 2 powi (e - 52))) * 2 powi (e - 52)"
  unfolding binary64_def binary64_exponent_normal [OF assms] ..

lemma binary64_0: "binary64 0 = 0"
  by (simp add: binary64_def round_half_even_def)

lemma binary64_representable:
  assumes m: "2 ^ 52 \<le> \<bar>m\<bar>" "\<bar>m\<bar> < 2 ^ 53" and q: "- 1074 \<le> q"
  shows "binary64 (of_int m * 2 powi q) = of_int m * 2 powi q"
proof -
  have pos: "(0::real) < 2 powi q" by simp
  have abs: "\<bar>of_int m * 2 powi q\<bar> = of_int \<bar>m\<bar> * (2::real) powi q"
    by (simp add: abs_mult)
  have e1: "(2::real) powi (q + 52) = 2 ^ 52 * 2 powi q"
    by (subst power_int_add) (simp_all add: mult.commute)
  have e2: "(2::real) powi (q + 52 + 1) = 2 ^ 53 * 2 powi q"
    by (subst power_int_add, simp, subst e1) simp
  have "(of_int (2 ^ 52) :: real) \<le> of_int \<bar>m\<bar>" using m(1) by (simp only: of_int_le_iff)
  then have "(2::real) ^ 52 \<le> of_int \<bar>m\<bar>" by simp
  then have lo: "(2::real) powi (q + 52) \<le> \<bar>of_int m * 2 powi q\<bar>"
    unfolding abs e1 using pos by (simp only: mult_le_cancel_right_pos)
  have "(of_int \<bar>m\<bar> :: real) < of_int (2 ^ 53)" using m(2) by (simp only: of_int_less_iff)
  then have "of_int \<bar>m\<bar> < (2::real) ^ 53" by simp
  then have hi: "\<bar>of_int m * 2 powi q\<bar> < (2::real) powi (q + 52 + 1)"
    unfolding abs e2 using pos by (simp only: mult_less_cancel_right_pos)
  have "binary64 (of_int m * 2 powi q)
      = of_int (round_half_even (of_int m * 2 powi q / 2 powi (q + 52 - 52))) * 2 powi (q + 52 - 52)"
    using lo hi q by (intro binary64_normal) simp_all
  then show ?thesis
    by (simp add: round_half_even_of_int)
qed

lemma binary64_tie:
  assumes m: "2 ^ 52 \<le> m" "m < 2 ^ 53" and q: "- 1074 \<le> q"
  shows "binary64 ((of_int m + 1 / 2) * 2 powi q) = of_int (if even m then m else m + 1) * 2 powi q"
proof -
  have pos: "(0::real) < 2 powi q" by simp
  have m0: "(0::real) \<le> of_int m + 1 / 2" using m(1) by simp
  have abs: "\<bar>(of_int m + 1 / 2) * 2 powi q\<bar> = (of_int m + 1 / 2) * (2::real) powi q"
    using m0 by (simp add: abs_mult)
  have e1: "(2::real) powi (q + 52) = 2 ^ 52 * 2 powi q"
    by (subst power_int_add) (simp_all add: mult.commute)
  have e2: "(2::real) powi (q + 52 + 1) = 2 ^ 53 * 2 powi q"
    by (subst power_int_add, simp, subst e1) simp
  have "(of_int (2 ^ 52) :: real) \<le> of_int m" using m(1) by (simp only: of_int_le_iff)
  then have "(2::real) ^ 52 \<le> of_int m + 1 / 2" by simp
  then have lo: "(2::real) powi (q + 52) \<le> \<bar>(of_int m + 1 / 2) * 2 powi q\<bar>"
    unfolding abs e1 using pos by (simp only: mult_le_cancel_right_pos)
  have "m + 1 \<le> 2 ^ 53" using m(2) by simp
  then have "(of_int (m + 1) :: real) \<le> of_int (2 ^ 53)" by (simp only: of_int_le_iff)
  then have "of_int m + 1 / 2 < (2::real) ^ 53" by simp
  then have hi: "\<bar>(of_int m + 1 / 2) * 2 powi q\<bar> < (2::real) powi (q + 52 + 1)"
    unfolding abs e2 using pos by (simp only: mult_less_cancel_right_pos)
  have "binary64 ((of_int m + 1 / 2) * 2 powi q)
      = of_int (round_half_even ((of_int m + 1 / 2) * 2 powi q / 2 powi (q + 52 - 52))) * 2 powi (q + 52 - 52)"
    using lo hi q by (intro binary64_normal) simp_all
  then show ?thesis
    by (simp add: round_half_even_half)
qed

text \<open>The rounding at the numbers of the two examples below.\<close>

lemma powi_neg_numeral: "(2::real) powi (- int n) = 1 / 2 ^ n"
  by (simp add: power_int_minus field_simps)

lemma binary64_one_plus_half_ulp: "binary64 (1 + 1 / 2 ^ 53) = 1"
proof -
  have x: "(1 + 1 / 2 ^ 53 :: real) = (of_int (2 ^ 52) + 1 / 2) * 2 powi (- 52)"
    using powi_neg_numeral [of 52] by simp
  have "binary64 ((of_int (2 ^ 52) + 1 / 2) * 2 powi (- 52))
      = of_int (if even ((2::int) ^ 52) then 2 ^ 52 else 2 ^ 52 + 1) * 2 powi (- 52)"
    by (rule binary64_tie) simp_all
  also have "\<dots> = 1"
    using powi_neg_numeral [of 52] by simp
  finally show ?thesis unfolding x .
qed

lemma binary64_one_plus_ulp: "binary64 (1 + 1 / 2 ^ 52) = 1 + 1 / 2 ^ 52"
proof -
  have x: "(1 + 1 / 2 ^ 52 :: real) = of_int (2 ^ 52 + 1) * 2 powi (- 52)"
    using powi_neg_numeral [of 52] by simp
  show ?thesis
    unfolding x by (rule binary64_representable) simp_all
qed

lemma binary64_ulp: "binary64 (1 / 2 ^ 53 + 1 / 2 ^ 53) = 1 / 2 ^ 52"
proof -
  have x: "(1 / 2 ^ 53 + 1 / 2 ^ 53 :: real) = of_int (2 ^ 52) * 2 powi (- 104)"
    using powi_neg_numeral [of 104] by simp
  have y: "(1 / 2 ^ 52 :: real) = of_int (2 ^ 52) * 2 powi (- 104)"
    using powi_neg_numeral [of 104] by simp
  show ?thesis
    unfolding x y by (rule binary64_representable) simp_all
qed

lemma binary64_below_minus_one: "binary64 (1 / 2 ^ 53 - 1) = 1 / 2 ^ 53 - 1"
proof -
  have x: "(1 / 2 ^ 53 - 1 :: real) = of_int (1 - 2 ^ 53) * 2 powi (- 53)"
    using powi_neg_numeral [of 53] by simp
  show ?thesis
    unfolding x by (rule binary64_representable) simp_all
qed

lemma binary64_half_ulp: "binary64 (1 / 2 ^ 53) = 1 / 2 ^ 53"
proof -
  have x: "(1 / 2 ^ 53 :: real) = of_int (2 ^ 52) * 2 powi (- 105)"
    using powi_neg_numeral [of 105] by simp
  show ?thesis
    unfolding x by (rule binary64_representable) simp_all
qed

text \<open>
  The rounding is monotone: within one exponent because \<open>round_half_even\<close> is,
  and across exponents because a power of two lies between the two results.
\<close>

lemma round_half_even_bounds:
  "\<lfloor>x\<rfloor> \<le> round_half_even x" "round_half_even x \<le> \<lfloor>x\<rfloor> + 1"
  by (simp_all add: round_half_even_def Let_def)

lemma round_half_even_mono:
  assumes "s \<le> t"
  shows "round_half_even s \<le> round_half_even t"
proof (cases "\<lfloor>s\<rfloor> = \<lfloor>t\<rfloor>")
  case False
  with assms have "\<lfloor>s\<rfloor> < \<lfloor>t\<rfloor>" using floor_mono [of s t] by simp
  then show ?thesis
    using round_half_even_bounds(2) [of s] round_half_even_bounds(1) [of t] by linarith
next
  case True
  with assms have "s - of_int \<lfloor>s\<rfloor> \<le> t - of_int \<lfloor>t\<rfloor>" by simp
  with True show ?thesis
    by (auto simp add: round_half_even_def Let_def)
qed

lemma round_half_even_minus: "round_half_even (- t) = - round_half_even t"
proof (cases "t = of_int \<lfloor>t\<rfloor>")
  case True
  then obtain n :: int where t: "t = of_int n" ..
  have "round_half_even (of_int (- n)) = - n" by (rule round_half_even_of_int)
  then show ?thesis unfolding t by (simp add: round_half_even_of_int)
next
  case False
  then have fl: "\<lfloor>- t\<rfloor> = - \<lfloor>t\<rfloor> - 1"
    by (metis ceiling_altdef ceiling_def add_diff_cancel_right' minus_diff_eq diff_minus_eq_add uminus_add_conv_diff)
  have fr: "0 < t - of_int \<lfloor>t\<rfloor>" using False by (smt (verit) of_int_floor_le)
  show ?thesis
    unfolding round_half_even_def Let_def fl
    using fr by (auto simp: algebra_simps)
qed

lemma binary64_exponent_mono:
  assumes "\<bar>x\<bar> \<le> \<bar>y\<bar>"
  shows "binary64_exponent x \<le> binary64_exponent y"
proof -
  have "(0::real) \<le> 2 ^ 1074" by (rule zero_le_power) simp
  with assms have "\<bar>x\<bar> * 2 ^ 1074 \<le> \<bar>y\<bar> * 2 ^ 1074" by (rule mult_right_mono)
  then have "\<lfloor>\<bar>x\<bar> * 2 ^ 1074\<rfloor> \<le> \<lfloor>\<bar>y\<bar> * 2 ^ 1074\<rfloor>" by (rule floor_mono)
  then have "nat \<lfloor>\<bar>x\<bar> * 2 ^ 1074\<rfloor> \<le> nat \<lfloor>\<bar>y\<bar> * 2 ^ 1074\<rfloor>" by (rule nat_mono)
  then have "floorlog 2 (nat \<lfloor>\<bar>x\<bar> * 2 ^ 1074\<rfloor>) \<le> floorlog 2 (nat \<lfloor>\<bar>y\<bar> * 2 ^ 1074\<rfloor>)"
    by (rule floorlog_mono)
  then have "bitlen \<lfloor>\<bar>x\<bar> * 2 ^ 1074\<rfloor> \<le> bitlen \<lfloor>\<bar>y\<bar> * 2 ^ 1074\<rfloor>"
    unfolding bitlen_def by (simp only: of_nat_le_iff)
  then show ?thesis unfolding binary64_exponent_def by linarith
qed

lemma binary64_exponent_minus: "binary64_exponent (- x) = binary64_exponent x"
  unfolding binary64_exponent_def abs_minus_cancel ..

lemma binary64_minus: "binary64 (- x) = - binary64 x"
  unfolding binary64_def binary64_exponent_minus minus_divide_left [symmetric] round_half_even_minus
  by simp

lemma significand_bounds_gen:
  fixes x :: real and k :: nat
  assumes x: "0 \<le> x"
  defines "bl \<equiv> bitlen \<lfloor>x * 2 ^ k\<rfloor>"
  defines "q \<equiv> max (bl - 53 - int k) (- int k)"
  shows "x / 2 powi q < 2 ^ 53" and "- int k < q \<Longrightarrow> 2 ^ 52 \<le> x / 2 powi q"
proof -
  define y where "y = x * 2 ^ k"
  define n where "n = \<lfloor>y\<rfloor>"
  have bl: "bl = bitlen n" by (simp add: bl_def n_def y_def)
  have y0: "0 \<le> y" using x by (simp add: y_def)
  then have n0: "0 \<le> n" by (simp add: n_def)
  have bl0: "0 \<le> bl" by (simp add: bl bitlen_nonneg)
  have split: "x / 2 powi q = y / 2 powi (q + int k)"
  proof -
    have "(2::real) powi (q + int k) = 2 powi q * 2 powi (int k)"
      by (rule power_int_add) simp
    then show ?thesis by (simp add: y_def)
  qed
  have up: "y < 2 powi bl"
  proof -
    have "n < 2 ^ nat bl"
    proof (cases "0 < n")
      case True
      then show ?thesis using bitlen_bounds [of n] by (simp add: bl)
    next
      case False
      with n0 show ?thesis by simp
    qed
    then have "n + 1 \<le> 2 ^ nat bl" by simp
    then have "(of_int (n + 1) :: real) \<le> of_int (2 ^ nat bl)" by (simp only: of_int_le_iff)
    moreover have "y < of_int (n + 1)" unfolding n_def by linarith
    ultimately have "y < 2 ^ nat bl" by simp
    then show ?thesis using bl0 by (simp add: power_int_def)
  qed
  show "x / 2 powi q < 2 ^ 53"
  proof (cases "bl \<le> 53")
    case True
    then have qq: "q + int k = 0" by (simp add: q_def)
    from True have "(2::real) powi bl \<le> 2 powi 53" by (intro power_int_increasing) simp_all
    with up have "y < 2 ^ 53" by simp
    then show ?thesis unfolding split qq by simp
  next
    case False
    then have qq: "q + int k = bl - 53" by (simp add: q_def)
    have "y / 2 powi (bl - 53) < 2 powi bl / 2 powi (bl - 53)"
      using up by (simp add: divide_strict_right_mono)
    also have "\<dots> = 2 powi 53"
      by (simp flip: power_int_diff)
    finally show ?thesis unfolding split qq by simp
  qed
  show "2 ^ 52 \<le> x / 2 powi q" if "- int k < q"
  proof -
    from that have big: "53 < bl" and qq: "q + int k = bl - 53" by (simp_all add: q_def)
    then have "0 < n" using bitlen_eq_zero_iff [of n] n0 bl by (cases "n = 0") auto
    then have "2 ^ nat (bl - 1) \<le> n" using bitlen_bounds [of n] by (simp add: bl)
    then have "(of_int (2 ^ nat (bl - 1)) :: real) \<le> of_int n" by (simp only: of_int_le_iff)
    moreover have "(2::real) ^ nat (bl - 1) = of_int (2 ^ nat (bl - 1))" by simp
    moreover have "of_int n \<le> y" unfolding n_def by linarith
    ultimately have "2 ^ nat (bl - 1) \<le> y" by (simp only: order_trans)
    then have lo: "2 powi (bl - 1) \<le> y" using big by (simp add: power_int_def)
    have "(2::real) powi (bl - 1) / 2 powi (bl - 53) = 2 powi 52"
      by (simp flip: power_int_diff)
    moreover have "2 powi (bl - 1) / 2 powi (bl - 53) \<le> y / 2 powi (bl - 53)"
      using lo by (simp add: divide_right_mono)
    ultimately show ?thesis unfolding split qq by simp
  qed
qed

lemma binary64_exponent_ge: "- 1074 \<le> binary64_exponent x"
  unfolding binary64_exponent_def by (rule max.cobounded2)

lemma significand_bounds:
  assumes "0 \<le> x"
  shows "x / 2 powi binary64_exponent x < 2 ^ 53"
    and "- 1074 < binary64_exponent x \<Longrightarrow> 2 ^ 52 \<le> x / 2 powi binary64_exponent x"
proof -
  have s: "max (b - 1127) (- 1074) = max (b - 53 - int 1074) (- int 1074)" for b :: int
    by simp
  have a: "\<bar>x\<bar> = x" using assms by simp
  have q: "binary64_exponent x = max (bitlen \<lfloor>x * 2 ^ 1074\<rfloor> - 53 - int 1074) (- int 1074)"
    unfolding binary64_exponent_def a s ..
  show "x / 2 powi binary64_exponent x < 2 ^ 53"
    unfolding q using assms by (rule significand_bounds_gen(1))
  show "2 ^ 52 \<le> x / 2 powi binary64_exponent x" if "- 1074 < binary64_exponent x"
  proof -
    from that have "- int 1074 < max (bitlen \<lfloor>x * 2 ^ 1074\<rfloor> - 53 - int 1074) (- int 1074)"
      unfolding q by simp
    with assms show ?thesis unfolding q by (rule significand_bounds_gen(2))
  qed
qed

lemma binary64_mono_nonneg:
  assumes x: "0 \<le> x" and xy: "x \<le> y"
  shows "binary64 x \<le> binary64 y"
proof -
  define qx where "qx = binary64_exponent x"
  define qy where "qy = binary64_exponent y"
  have y: "0 \<le> y" using x xy by simp
  have "\<bar>x\<bar> \<le> \<bar>y\<bar>" using x xy by simp
  then have q: "qx \<le> qy" unfolding qx_def qy_def by (rule binary64_exponent_mono)
  have bx: "binary64 x = of_int (round_half_even (x / 2 powi qx)) * 2 powi qx"
    and "by": "binary64 y = of_int (round_half_even (y / 2 powi qy)) * 2 powi qy"
    by (simp_all only: binary64_def qx_def qy_def)
  show ?thesis
  proof (cases "qx = qy")
    case True
    have "x / 2 powi qy \<le> y / 2 powi qy"
      using xy by (rule divide_right_mono) simp
    then have "round_half_even (x / 2 powi qy) \<le> round_half_even (y / 2 powi qy)"
      by (rule round_half_even_mono)
    then have "(of_int (round_half_even (x / 2 powi qy)) :: real) \<le> of_int (round_half_even (y / 2 powi qy))"
      by (simp only: of_int_le_iff)
    then show ?thesis
      unfolding bx "by" True by (rule mult_right_mono) simp
  next
    case False
    with q have lt: "qx + 1 \<le> qy" by simp
    have "x / 2 powi qx \<le> of_int (2 ^ 53)"
      using significand_bounds(1) [OF x] unfolding qx_def by simp
    then have "round_half_even (x / 2 powi qx) \<le> round_half_even (of_int (2 ^ 53))"
      by (rule round_half_even_mono)
    then have "round_half_even (x / 2 powi qx) \<le> 2 ^ 53"
      by (simp only: round_half_even_of_int)
    then have "(of_int (round_half_even (x / 2 powi qx)) :: real) \<le> of_int (2 ^ 53)"
      by (simp only: of_int_le_iff)
    then have "binary64 x \<le> of_int (2 ^ 53) * 2 powi qx"
      unfolding bx by (rule mult_right_mono) simp
    also have "\<dots> = 2 powi (qx + 1) * 2 ^ 52"
      by (simp add: power_int_add)
    also have "\<dots> \<le> 2 powi qy * 2 ^ 52"
      using lt by (intro mult_right_mono power_int_increasing) simp_all
    finally have upper: "binary64 x \<le> 2 powi qy * 2 ^ 52" .
    have "- 1074 \<le> qx" unfolding qx_def by (rule binary64_exponent_ge)
    with lt have "- 1074 < binary64_exponent y" unfolding qy_def by simp
    from significand_bounds(2) [OF y this]
    have "of_int (2 ^ 52) \<le> y / 2 powi qy" unfolding qy_def by simp
    then have "round_half_even (of_int (2 ^ 52)) \<le> round_half_even (y / 2 powi qy)"
      by (rule round_half_even_mono)
    then have "2 ^ 52 \<le> round_half_even (y / 2 powi qy)"
      by (simp only: round_half_even_of_int)
    then have "(of_int (2 ^ 52) :: real) \<le> of_int (round_half_even (y / 2 powi qy))"
      by (simp only: of_int_le_iff)
    then have "of_int (2 ^ 52) * 2 powi qy \<le> binary64 y"
      unfolding "by" by (rule mult_right_mono) simp
    then have "2 powi qy * 2 ^ 52 \<le> binary64 y" by (simp add: mult.commute)
    with upper show ?thesis by (rule order_trans)
  qed
qed

lemma binary64_mono:
  assumes "x \<le> y"
  shows "binary64 x \<le> binary64 y"
proof -
  consider "0 \<le> x" | "y \<le> 0" | "x < 0" "0 < y" by linarith
  then show ?thesis
  proof cases
    case 1
    then show ?thesis using assms by (rule binary64_mono_nonneg)
  next
    case 2
    then have "0 \<le> - y" "- y \<le> - x" using assms by simp_all
    then have "binary64 (- y) \<le> binary64 (- x)" by (rule binary64_mono_nonneg)
    then show ?thesis unfolding binary64_minus by simp
  next
    case 3
    have "binary64 0 \<le> binary64 (- x)" using 3(1) by (intro binary64_mono_nonneg) simp_all
    then have "binary64 x \<le> 0" unfolding binary64_minus binary64_0 by simp
    moreover have "binary64 0 \<le> binary64 y" using 3(2) by (intro binary64_mono_nonneg) simp_all
    then have "0 \<le> binary64 y" unfolding binary64_0 .
    ultimately show ?thesis by simp
  qed
qed

text \<open>Some floats, and the rounding of a number that is near one.\<close>

lemma binary64_nonneg: "0 \<le> x \<Longrightarrow> 0 \<le> binary64 x"
  using binary64_mono [of 0 x] by (simp add: binary64_0)

lemma binary64_1: "binary64 1 = 1"
proof -
  have x: "(1::real) = of_int (2 ^ 52) * 2 powi (- 52)"
    using powi_neg_numeral [of 52] by simp
  show ?thesis
    by (subst (1 2) x) (rule binary64_representable, simp_all)
qed

lemma binary64_2: "binary64 2 = 2"
proof -
  have x: "(2::real) = of_int (2 ^ 52) * 2 powi (- 51)"
    using powi_neg_numeral [of 51] by simp
  show ?thesis
    by (subst (1 2) x) (rule binary64_representable, simp_all)
qed

lemma binary64_4: "binary64 4 = 4"
proof -
  have x: "(4::real) = of_int (2 ^ 52) * 2 powi (- 50)"
    using powi_neg_numeral [of 50] by simp
  show ?thesis
    by (subst (1 2) x) (rule binary64_representable, simp_all)
qed

lemma binary64_40: "binary64 40 = 40"
proof -
  have x: "(40::real) = of_int (5 * 2 ^ 50) * 2 powi (- 47)"
    using powi_neg_numeral [of 47] by simp
  show ?thesis
    by (subst (1 2) x) (rule binary64_representable, simp_all)
qed

lemma round_half_even_near:
  assumes "\<bar>x - of_int m\<bar> < 1 / 2"
  shows "round_half_even x = m"
proof -
  have "\<lfloor>x\<rfloor> = m \<or> \<lfloor>x\<rfloor> = m - 1" using assms by linarith
  then show ?thesis
    using assms unfolding round_half_even_def Let_def
    by (auto simp: abs_less_iff)
qed

lemma binary64_near:
  assumes "2 powi e \<le> \<bar>x\<bar>" and "\<bar>x\<bar> < 2 powi (e + 1)" and "- 1022 \<le> e"
    and "\<bar>x / 2 powi (e - 52) - of_int m\<bar> < 1 / 2"
  shows "binary64 x = of_int m * 2 powi (e - 52)"
  unfolding binary64_normal [OF assms(1-3)] round_half_even_near [OF assms(4)] ..

text \<open>
  The default step: the float \<open>0.05\<close> is \<open>3602879701896397 / 2 ^ 56\<close>, a little
  above \<open>1 / 20\<close>, and \<open>2.0 / 0.05\<close> is the float \<open>40.0\<close>, although the exact
  quotient is below 40.  At the float \<open>0.00064\<close> the quotient is just below 3125.
\<close>

lemma binary64_5_100: "binary64 (5 / 100) = 7205759403792794 / 2 ^ 57"
proof -
  have "binary64 (5 / 100) = of_int 7205759403792794 * 2 powi (- 5 - 52)"
    by (rule binary64_near) (simp_all add: power_int_minus)
  then show ?thesis by (simp add: power_int_minus)
qed

lemma quotient_default_step: "binary64 (2 / binary64 (5 / 100)) = 40"
proof -
  have "binary64 (2 / (7205759403792794 / 2 ^ 57)) = of_int 5629499534213120 * 2 powi (5 - 52)"
    by (rule binary64_near) (simp_all add: power_int_minus)
  then show ?thesis unfolding binary64_5_100 by (simp add: power_int_minus)
qed

lemma binary64_64_100000: "binary64 (64 / 100000) = 5902958103587057 / 2 ^ 63"
proof -
  have "binary64 (64 / 100000) = of_int 5902958103587057 * 2 powi (- 11 - 52)"
    by (rule binary64_near) (simp_all add: power_int_minus)
  then show ?thesis by (simp add: power_int_minus)
qed

lemma quotient_step_64_100000: "\<lfloor>binary64 (2 / binary64 (64 / 100000))\<rfloor> = 3124"
proof -
  have "binary64 (2 / (5902958103587057 / 2 ^ 63)) = of_int 6871947673599999 * 2 powi (11 - 52)"
    by (rule binary64_near) (simp_all add: power_int_minus)
  then have eq: "binary64 (2 / binary64 (64 / 100000)) = 6871947673599999 / 2 ^ 41"
    unfolding binary64_64_100000 by (simp add: power_int_minus)
  show ?thesis unfolding eq by simp
qed

section \<open>The trail loop\<close>


lemma length_le_floor:
  fixes q :: real
  shows "real n \<le> q \<Longrightarrow> n \<le> nat \<lfloor>q\<rfloor>"
  by (metis le_floor_iff le_nat_iff of_int_of_nat_eq of_nat_0_le_iff order_trans)

lemma floor_lt_length:
  fixes q :: real
  shows "q < real n \<Longrightarrow> nat \<lfloor>q\<rfloor> < n \<or> n = 0"
proof (cases "n = 0")
  case True
  then show ?thesis by simp
next
  case False
  assume "q < real n"
  then have "\<lfloor>q\<rfloor> < int n" by (simp add: floor_less_iff)
  with False show ?thesis by linarith
qed

lemma pop_while_Inr:
  assumes "pop_while dt xs = Inr ys" and fin: "binary64 (2 / dt) < 2 ^ 1024"
  shows "ys = drop (length xs - nat \<lfloor>binary64 (2 / dt)\<rfloor>) xs"
  using assms(1)
proof (induction xs)
  case Nil
  then show ?case by (simp split: if_splits)
next
  case (Cons p ps)
  from Cons.prems have dt: "dt \<noteq> 0" by (auto split: if_splits)
  show ?case
  proof (cases "real (length (p # ps)) > binary64 (2 / dt)")
    case True
    with Cons.prems dt fin have "pop_while dt ps = Inr ys" by simp
    then have ys: "ys = drop (length ps - nat \<lfloor>binary64 (2 / dt)\<rfloor>) ps" by (rule Cons.IH)
    from floor_lt_length [OF True] have "nat \<lfloor>binary64 (2 / dt)\<rfloor> \<le> length ps" by simp
    then show ?thesis unfolding ys by (simp add: Suc_diff_le)
  next
    case False
    then have "real (length (p # ps)) \<le> binary64 (2 / dt)" by simp
    then have "length (p # ps) \<le> nat \<lfloor>binary64 (2 / dt)\<rfloor>" by (rule length_le_floor)
    moreover from False Cons.prems dt have "ys = p # ps" by simp
    ultimately show ?thesis by simp
  qed
qed

lemma pop_while_pos_Inr:
  assumes "0 < dt"
  shows "\<exists>ys. pop_while dt xs = Inr ys"
proof -
  have q: "0 \<le> binary64 (2 / dt)" using assms by (intro binary64_nonneg) simp
  show ?thesis
  proof (induction xs)
    case Nil
    from q have "\<not> (0 > binary64 (2 / dt))" by simp
    with assms show ?case by simp
  next
    case (Cons p ps)
    with assms show ?case by auto
  qed
qed

lemma pop_while_pos:
  assumes "0 < dt" and "binary64 (2 / dt) < 2 ^ 1024"
  shows "pop_while dt xs = Inr (drop (length xs - nat \<lfloor>binary64 (2 / dt)\<rfloor>) xs)"
  using pop_while_pos_Inr [OF assms(1), of xs] pop_while_Inr [OF _ assms(2), of xs] by auto

lemma pop_while_inf:
  assumes "dt \<noteq> 0" and "2 ^ 1024 \<le> binary64 (2 / dt)"
  shows "pop_while dt xs = Inr xs"
  using assms by simp

declare pop_while.simps [simp del]

section \<open>One call of update\<close>

lemma Vector_abs_eq_0_iff: "Vector_abs d = 0 \<longleftrightarrow> d = Vector 0 0"
  by (cases d) (auto simp: Vector_abs_def sum_power2_eq_zero_iff power2_eq_square[symmetric])

lemma Vector_sub_eq_0_iff: "Vector_sub a b = Vector 0 0 \<longleftrightarrow> a = b"
  by (cases a; cases b) (simp add: Vector_sub_def)

lemma cube_abs_eq_0_iff: "Vector_abs (Vector_sub a b) ^ 3 = 0 \<longleftrightarrow> a = b"
  by (simp add: Vector_abs_eq_0_iff Vector_sub_eq_0_iff)

lemma Vector_truediv_cases:
  "Vector_truediv (Vector_rmul (Vector_sub a b) c) (Vector_abs (Vector_sub a b) ^ 3) =
     (if a = b then Inl ZeroDivisionError
      else Inr (Vector (c * vec_x (Vector_sub a b) / Vector_abs (Vector_sub a b) ^ 3)
                       (c * vec_y (Vector_sub a b) / Vector_abs (Vector_sub a b) ^ 3)))"
  unfolding Vector_truediv_def cube_abs_eq_0_iff
  by (simp add: Vector_rmul_def Vector_mul_def)

lemma velocity_step:
  "Vector_sub v (Vector_mul (Vector (G * m * vec_x d / n) (G * m * vec_y d / n)) dt) =
   Vector_add v (Vector_mul (Vector (- G * m * vec_x d / n) (- G * m * vec_y d / n)) dt)"
  by (simp add: Vector_sub_def Vector_add_def Vector_mul_def)

lemma velocity_sum:
  "Vector_add (Vector_add v (Vector_mul a dt)) (Vector_mul b dt) =
   Vector_add v (Vector_mul (Vector_add a b) dt)"
  by (simp add: Vector_add_def Vector_mul_def algebra_simps)

lemma update_pos:
  assumes "0 < dt" and "binary64 (2 / dt) < 2 ^ 1024"
  shows "update dt u =
     (let blue_p' = Vector_add (blue_p u) (Vector_mul (blue_v u) dt);
          white_p' = Vector_add (white_p u) (Vector_mul (white_v u) dt)
      in if blue_p' = yellow_p u \<or> white_p' = yellow_p u \<or> white_p' = blue_p'
         then Inl ZeroDivisionError
         else Inr (u\<lparr> blue_trail := drop (length (blue_trail u @ [blue_p u]) - nat \<lfloor>binary64 (2 / dt)\<rfloor>) (blue_trail u @ [blue_p u]),
                      blue_p := blue_p',
                      blue_v := Vector_add (blue_v u)
                                  (Vector_mul (spec_acceleration (yellow_m u) (Vector_sub blue_p' (yellow_p u))) dt),
                      white_trail := drop (length (white_trail u @ [white_p u]) - nat \<lfloor>binary64 (2 / dt)\<rfloor>) (white_trail u @ [white_p u]),
                      white_p := white_p',
                      white_v := Vector_add (white_v u)
                                  (Vector_mul (Vector_add (spec_acceleration (yellow_m u) (Vector_sub white_p' (yellow_p u)))
                                                          (spec_acceleration (blue_m u) (Vector_sub white_p' blue_p'))) dt) \<rparr>))"
proof -
  let ?bp = "Vector_add (blue_p u) (Vector_mul (blue_v u) dt)"
  let ?wp = "Vector_add (white_p u) (Vector_mul (white_v u) dt)"
  note unf = update_def Let_def pop_while_pos [OF assms] Vector_truediv_cases
  show ?thesis
  proof (cases "?bp = yellow_p u")
    case True
    then show ?thesis unfolding unf by simp
  next
    case b: False
    show ?thesis
    proof (cases "?wp = yellow_p u")
      case True
      with b show ?thesis unfolding unf by simp
    next
      case wy: False
      show ?thesis
      proof (cases "?wp = ?bp")
        case True
        with b wy show ?thesis unfolding unf by simp
      next
        case wb: False
        show ?thesis unfolding unf spec_acceleration_def
          using b wy wb
          by (simp only: if_False simp_thms sum.case velocity_step velocity_sum)
      qed
    qed
  qed
qed

lemma update_InrE:
  assumes "update dt u = Inr u'"
  obtains bt q wt qy qb where
    "pop_while dt (blue_trail u @ [blue_p u]) = Inr bt"
    "Vector_truediv (Vector_rmul (Vector_sub (Vector_add (blue_p u) (Vector_mul (blue_v u) dt)) (yellow_p u)) (G * yellow_m u))
       (Vector_abs (Vector_sub (Vector_add (blue_p u) (Vector_mul (blue_v u) dt)) (yellow_p u)) ^ 3) = Inr q"
    "pop_while dt (white_trail u @ [white_p u]) = Inr wt"
    "Vector_truediv (Vector_rmul (Vector_sub (Vector_add (white_p u) (Vector_mul (white_v u) dt)) (yellow_p u)) (G * yellow_m u))
       (Vector_abs (Vector_sub (Vector_add (white_p u) (Vector_mul (white_v u) dt)) (yellow_p u)) ^ 3) = Inr qy"
    "Vector_truediv (Vector_rmul (Vector_sub (Vector_add (white_p u) (Vector_mul (white_v u) dt)) (Vector_add (blue_p u) (Vector_mul (blue_v u) dt))) (G * blue_m u))
       (Vector_abs (Vector_sub (Vector_add (white_p u) (Vector_mul (white_v u) dt)) (Vector_add (blue_p u) (Vector_mul (blue_v u) dt))) ^ 3) = Inr qb"
    "u' = u\<lparr> blue_trail := bt,
              blue_p := Vector_add (blue_p u) (Vector_mul (blue_v u) dt),
              blue_v := Vector_sub (blue_v u) (Vector_mul q dt),
              white_trail := wt,
              white_p := Vector_add (white_p u) (Vector_mul (white_v u) dt),
              white_v := Vector_sub (Vector_sub (white_v u) (Vector_mul qy dt)) (Vector_mul qb dt) \<rparr>"
  using assms unfolding update_def Let_def
  by (auto split: sum.splits)

text \<open>The rounded quotient at the steps \<open>1\<close>, \<open>1 / 2\<close> and \<open>5 / 100\<close>.\<close>

lemma quotient_1: "binary64 (2 / 1) = 2"
  by (simp add: binary64_2)

lemma quotient_half: "binary64 (2 / (1 / 2)) = 4"
  by (simp add: binary64_4)

lemma quotient_5_100: "binary64 (2 / (5 / 100)) = 40"
  by (simp add: binary64_40)

text \<open>One call on the first example state, with \<open>delta_t = 1\<close>.\<close>

lemma sqrt25: "sqrt 25 = 5"
  by (rule real_sqrt_unique) simp_all

lemma sqrt100: "sqrt 100 = 10"
  by (rule real_sqrt_unique) simp_all

lemma update_example:
  "update 1 example_universe =
     Inr (example_universe\<lparr> blue_trail := [Vector 3 4], blue_v := Vector (- 3) (- 4),
                            white_trail := [Vector 6 8], white_v := Vector (- 15 / 4) (- 5) \<rparr>)"
proof -
  have fin: "binary64 (2 / 1) < 2 ^ 1024" unfolding quotient_1 by simp
  show ?thesis
    unfolding update_pos [of 1 example_universe, OF zero_less_one fin] quotient_1
    by (simp add: example_universe_def spec_acceleration_def G_def Let_def
        Vector_add_def Vector_sub_def Vector_mul_def Vector_abs_def sqrt25 sqrt100)
qed

text \<open>One call on the moving example state, with \<open>delta_t = 1 / 2\<close>.\<close>

lemma update_moving:
  "update (1 / 2) moving_universe =
     Inr (moving_universe\<lparr> blue_trail := [Vector 1 4], blue_p := Vector 3 4,
                            blue_v := Vector (5 / 2) (- 2),
                            white_trail := [Vector 6 6], white_p := Vector 6 8,
                            white_v := Vector (- 15 / 8) (3 / 2) \<rparr>)"
proof -
  have pos: "0 < (1 / 2 :: real)" by simp
  have fin: "binary64 (2 / (1 / 2)) < 2 ^ 1024" unfolding quotient_half by simp
  show ?thesis
    unfolding update_pos [of "1 / 2" moving_universe, OF pos fin] quotient_half
    by (simp add: moving_universe_def spec_acceleration_def G_def Let_def
        Vector_add_def Vector_sub_def Vector_mul_def Vector_abs_def sqrt25 sqrt100)
qed

section \<open>What update writes\<close>

text \<open>
  C4.  A call of \<open>update\<close> that returns leaves the anchor's position and every body's
  mass and radius as they were: the new state is the old one with the two satellites'
  trails, positions and velocities replaced.  The state has no velocity of the anchor.
\<close>

theorem update_frame:
  assumes "update dt u = Inr u'"
  shows "yellow_p u' = yellow_p u \<and> yellow_m u' = yellow_m u \<and> yellow_r u' = yellow_r u
       \<and> blue_m u' = blue_m u \<and> blue_r u' = blue_r u
       \<and> white_m u' = white_m u \<and> white_r u' = white_r u
       \<and> u' = u\<lparr> blue_trail := blue_trail u', blue_p := blue_p u', blue_v := blue_v u',
                  white_trail := white_trail u', white_p := white_p u', white_v := white_v u' \<rparr>"
  using assms by (elim update_InrE) simp

theorem update_frame_witness:
  "update 1 example_universe =
     Inr (example_universe\<lparr> blue_trail := [Vector 3 4], blue_v := Vector (- 3) (- 4),
                            white_trail := [Vector 6 8], white_v := Vector (- 15 / 4) (- 5) \<rparr>)
   \<and> yellow_p (example_universe\<lparr> blue_trail := [Vector 3 4], blue_v := Vector (- 3) (- 4),
                            white_trail := [Vector 6 8], white_v := Vector (- 15 / 4) (- 5) \<rparr>)
       = Vector 0 0
   \<and> yellow_m (example_universe\<lparr> blue_trail := [Vector 3 4], blue_v := Vector (- 3) (- 4),
                            white_trail := [Vector 6 8], white_v := Vector (- 15 / 4) (- 5) \<rparr>)
       = 125"
  using update_frame [OF update_example] update_example
  by (simp add: example_universe_def)

section \<open>The order of integration\<close>

text \<open>
  C2.  In a call of \<open>update\<close> that returns, each satellite's new position is its old
  position plus its old velocity times \<open>delta_t\<close>, and its new velocity is its old
  velocity minus the force terms times \<open>delta_t\<close>, the force terms being computed from
  the new positions.
\<close>

theorem update_position_then_velocity:
  assumes "update dt u = Inr u'"
  shows "blue_p u' = Vector_add (blue_p u) (Vector_mul (blue_v u) dt)
       \<and> white_p u' = Vector_add (white_p u) (Vector_mul (white_v u) dt)
       \<and> (\<exists>q. Vector_truediv (Vector_rmul (Vector_sub (blue_p u') (yellow_p u)) (G * yellow_m u))
                  (Vector_abs (Vector_sub (blue_p u') (yellow_p u)) ^ 3) = Inr q
              \<and> blue_v u' = Vector_sub (blue_v u) (Vector_mul q dt))
       \<and> (\<exists>qyellow qblue.
              Vector_truediv (Vector_rmul (Vector_sub (white_p u') (yellow_p u)) (G * yellow_m u))
                  (Vector_abs (Vector_sub (white_p u') (yellow_p u)) ^ 3) = Inr qyellow
              \<and> Vector_truediv (Vector_rmul (Vector_sub (white_p u') (blue_p u')) (G * blue_m u))
                  (Vector_abs (Vector_sub (white_p u') (blue_p u')) ^ 3) = Inr qblue
              \<and> white_v u' = Vector_sub (Vector_sub (white_v u) (Vector_mul qyellow dt))
                                         (Vector_mul qblue dt))"
  using assms by (elim update_InrE) simp

theorem update_position_then_velocity_witness:
  "update (1 / 2) moving_universe =
     Inr (moving_universe\<lparr> blue_trail := [Vector 1 4], blue_p := Vector 3 4,
                            blue_v := Vector (5 / 2) (- 2),
                            white_trail := [Vector 6 6], white_p := Vector 6 8,
                            white_v := Vector (- 15 / 8) (3 / 2) \<rparr>)
   \<and> Vector 3 4 = Vector_add (Vector 1 4) (Vector_mul (Vector 4 0) (1 / 2))
   \<and> Vector 6 8 = Vector_add (Vector 6 6) (Vector_mul (Vector 0 4) (1 / 2))
   \<and> Vector_truediv (Vector_rmul (Vector_sub (Vector 3 4) (Vector 0 0)) (G * 125))
         (Vector_abs (Vector_sub (Vector 3 4) (Vector 0 0)) ^ 3) = Inr (Vector 3 4)
   \<and> Vector (5 / 2) (- 2) = Vector_sub (Vector 4 0) (Vector_mul (Vector 3 4) (1 / 2))
   \<and> Vector_truediv (Vector_rmul (Vector_sub (Vector 6 8) (Vector 0 0)) (G * 125))
         (Vector_abs (Vector_sub (Vector 6 8) (Vector 0 0)) ^ 3) = Inr (Vector (3 / 4) 1)
   \<and> Vector_truediv (Vector_rmul (Vector_sub (Vector 6 8) (Vector 3 4)) (G * 125))
         (Vector_abs (Vector_sub (Vector 6 8) (Vector 3 4)) ^ 3) = Inr (Vector 3 4)
   \<and> Vector (- 15 / 8) (3 / 2) =
       Vector_sub (Vector_sub (Vector 0 4) (Vector_mul (Vector (3 / 4) 1) (1 / 2)))
                  (Vector_mul (Vector 3 4) (1 / 2))
   \<and> Vector 3 4 \<noteq> Vector_add (Vector 1 4) (Vector_mul (Vector (5 / 2) (- 2)) (1 / 2))
   \<and> Vector 6 8 \<noteq> Vector_add (Vector 6 6) (Vector_mul (Vector (- 15 / 8) (3 / 2)) (1 / 2))"
  using update_position_then_velocity [OF update_moving] update_moving
  by (simp add: Vector_truediv_def Vector_rmul_def Vector_mul_def Vector_sub_def Vector_add_def
      Vector_abs_def G_def sqrt25 sqrt100)

section \<open>The bodies that attract a satellite\<close>

text \<open>
  C1, as the program has it.  In a call of \<open>update\<close> that returns, the velocity of the
  first satellite (blue) changes by the acceleration term of the anchor alone, times
  \<open>delta_t\<close>; the velocity of the second satellite (white) changes by the sum of the
  terms of the anchor and of the first satellite, times \<open>delta_t\<close>.  Each term is
  \<open>-G * mass_other * d / |d|^3\<close> with \<open>d\<close> taken between the new positions.  Nothing
  acts on the anchor: its position stays, and the state has no velocity for it.
\<close>

theorem update_velocity_terms:
  assumes "update dt u = Inr u'"
  shows "blue_v u' = Vector_add (blue_v u)
           (Vector_mul (spec_acceleration (yellow_m u) (Vector_sub (blue_p u') (yellow_p u))) dt)
       \<and> white_v u' = Vector_add (white_v u)
           (Vector_mul (Vector_add (spec_acceleration (yellow_m u) (Vector_sub (white_p u') (yellow_p u)))
                                   (spec_acceleration (blue_m u) (Vector_sub (white_p u') (blue_p u')))) dt)
       \<and> yellow_p u' = yellow_p u"
proof -
  let ?bp = "Vector_add (blue_p u) (Vector_mul (blue_v u) dt)"
  let ?wp = "Vector_add (white_p u) (Vector_mul (white_v u) dt)"
  from assms obtain bt q wt qy qb where
    q: "Vector_truediv (Vector_rmul (Vector_sub ?bp (yellow_p u)) (G * yellow_m u))
          (Vector_abs (Vector_sub ?bp (yellow_p u)) ^ 3) = Inr q"
    and qy: "Vector_truediv (Vector_rmul (Vector_sub ?wp (yellow_p u)) (G * yellow_m u))
          (Vector_abs (Vector_sub ?wp (yellow_p u)) ^ 3) = Inr qy"
    and qb: "Vector_truediv (Vector_rmul (Vector_sub ?wp ?bp) (G * blue_m u))
          (Vector_abs (Vector_sub ?wp ?bp) ^ 3) = Inr qb"
    and u': "u' = u\<lparr> blue_trail := bt, blue_p := ?bp,
              blue_v := Vector_sub (blue_v u) (Vector_mul q dt),
              white_trail := wt, white_p := ?wp,
              white_v := Vector_sub (Vector_sub (white_v u) (Vector_mul qy dt)) (Vector_mul qb dt) \<rparr>"
    by (rule update_InrE)
  have q': "q = Vector (G * yellow_m u * vec_x (Vector_sub ?bp (yellow_p u)) / Vector_abs (Vector_sub ?bp (yellow_p u)) ^ 3)
                       (G * yellow_m u * vec_y (Vector_sub ?bp (yellow_p u)) / Vector_abs (Vector_sub ?bp (yellow_p u)) ^ 3)"
    using q unfolding Vector_truediv_cases by (simp split: if_splits)
  have qy': "qy = Vector (G * yellow_m u * vec_x (Vector_sub ?wp (yellow_p u)) / Vector_abs (Vector_sub ?wp (yellow_p u)) ^ 3)
                         (G * yellow_m u * vec_y (Vector_sub ?wp (yellow_p u)) / Vector_abs (Vector_sub ?wp (yellow_p u)) ^ 3)"
    using qy unfolding Vector_truediv_cases by (simp split: if_splits)
  have qb': "qb = Vector (G * blue_m u * vec_x (Vector_sub ?wp ?bp) / Vector_abs (Vector_sub ?wp ?bp) ^ 3)
                         (G * blue_m u * vec_y (Vector_sub ?wp ?bp) / Vector_abs (Vector_sub ?wp ?bp) ^ 3)"
    using qb unfolding Vector_truediv_cases by (simp split: if_splits)
  have bv: "blue_v u' = Vector_sub (blue_v u) (Vector_mul q dt)"
    and wv: "white_v u' = Vector_sub (Vector_sub (white_v u) (Vector_mul qy dt)) (Vector_mul qb dt)"
    and bp: "blue_p u' = ?bp" and wp: "white_p u' = ?wp" and yp: "yellow_p u' = yellow_p u"
    unfolding u' by simp_all
  show ?thesis
    unfolding bv wv bp wp yp q' qy' qb' spec_acceleration_def
    by (simp only: velocity_step velocity_sum simp_thms)
qed

theorem update_velocity_terms_witness:
  "update 1 example_universe =
     Inr (example_universe\<lparr> blue_trail := [Vector 3 4], blue_v := Vector (- 3) (- 4),
                            white_trail := [Vector 6 8], white_v := Vector (- 15 / 4) (- 5) \<rparr>)
   \<and> Vector (- 3) (- 4) =
       Vector_add (Vector 0 0) (Vector_mul (spec_acceleration 125 (Vector_sub (Vector 3 4) (Vector 0 0))) 1)
   \<and> Vector (- 15 / 4) (- 5) =
       Vector_add (Vector 0 0)
         (Vector_mul (Vector_add (spec_acceleration 125 (Vector_sub (Vector 6 8) (Vector 0 0)))
                                 (spec_acceleration 125 (Vector_sub (Vector 6 8) (Vector 3 4)))) 1)
   \<and> yellow_p (example_universe\<lparr> blue_trail := [Vector 3 4], blue_v := Vector (- 3) (- 4),
                            white_trail := [Vector 6 8], white_v := Vector (- 15 / 4) (- 5) \<rparr>)
       = yellow_p example_universe"
  using update_velocity_terms [OF update_example] update_example
  by (simp add: example_universe_def)

text \<open>
  C1, as stated, fails: on the first example state with \<open>delta_t = 1\<close> the call leaves
  the first satellite with the velocity \<open>(-3, -4)\<close>, the pull of the anchor alone; with
  the second satellite's term added it would be \<open>(0, 0)\<close>.
\<close>

theorem blue_v_all_bodies_counterexample:
  "map_sum id blue_v (update 1 example_universe) = Inr (Vector (- 3) (- 4))
   \<and> blue_v_all_bodies 1 example_universe = Vector 0 0
   \<and> map_sum id blue_v (update 1 example_universe) \<noteq> Inr (blue_v_all_bodies 1 example_universe)"
proof -
  have a: "map_sum id blue_v (update 1 example_universe) = Inr (Vector (- 3) (- 4))"
    by (simp add: update_example)
  have b: "blue_v_all_bodies 1 example_universe = Vector 0 0"
    by (simp add: blue_v_all_bodies_def example_universe_def spec_acceleration_def G_def Let_def
        Vector_add_def Vector_sub_def Vector_mul_def Vector_abs_def sqrt25)
  show ?thesis unfolding a b by simp
qed

section \<open>Division by zero\<close>




section \<open>Trails\<close>

text \<open>
  The states of a run: \<open>updates dt n u = Inr us\<close> lists the \<open>n + 1\<close> states of \<open>n\<close>
  calls, so \<open>butlast us\<close> are the states the calls started from, oldest first, and
  \<open>last us\<close> is the state after the last call.
\<close>

lemma drop_last_twice:
  "drop (length (drop (length xs - k) xs @ ys) - k) (drop (length xs - k) xs @ ys) =
   drop (length (xs @ ys) - k) (xs @ ys)"
proof (cases "length xs \<le> k")
  case True
  then show ?thesis by simp
next
  case False
  then show ?thesis by (simp add: add.commute)
qed

lemma update_trails:
  assumes "update dt u = Inr u'" and "binary64 (2 / dt) < 2 ^ 1024"
  shows "blue_trail u' = drop (length (blue_trail u @ [blue_p u]) - nat \<lfloor>binary64 (2 / dt)\<rfloor>) (blue_trail u @ [blue_p u])"
    and "white_trail u' = drop (length (white_trail u @ [white_p u]) - nat \<lfloor>binary64 (2 / dt)\<rfloor>) (white_trail u @ [white_p u])"
proof -
  from assms(1) obtain bt q wt qy qb where
    bt: "pop_while dt (blue_trail u @ [blue_p u]) = Inr bt"
    and wt: "pop_while dt (white_trail u @ [white_p u]) = Inr wt"
    and u': "u' = u\<lparr> blue_trail := bt,
              blue_p := Vector_add (blue_p u) (Vector_mul (blue_v u) dt),
              blue_v := Vector_sub (blue_v u) (Vector_mul q dt),
              white_trail := wt,
              white_p := Vector_add (white_p u) (Vector_mul (white_v u) dt),
              white_v := Vector_sub (Vector_sub (white_v u) (Vector_mul qy dt)) (Vector_mul qb dt) \<rparr>"
    by (rule update_InrE)
  show "blue_trail u' = drop (length (blue_trail u @ [blue_p u]) - nat \<lfloor>binary64 (2 / dt)\<rfloor>) (blue_trail u @ [blue_p u])"
    unfolding u' using pop_while_Inr [OF bt assms(2)] by simp
  show "white_trail u' = drop (length (white_trail u @ [white_p u]) - nat \<lfloor>binary64 (2 / dt)\<rfloor>) (white_trail u @ [white_p u])"
    unfolding u' using pop_while_Inr [OF wt assms(2)] by simp
qed

lemma updates_shape:
  "updates dt n u = Inr us \<Longrightarrow> length us = Suc n \<and> hd us = u"
  by (induction n arbitrary: u us) (auto split: sum.splits)

lemma updates_trails:
  "updates dt (Suc n) u = Inr us \<Longrightarrow> binary64 (2 / dt) < 2 ^ 1024 \<Longrightarrow>
     blue_trail (last us) =
       drop (length (blue_trail u @ map blue_p (butlast us)) - nat \<lfloor>binary64 (2 / dt)\<rfloor>)
            (blue_trail u @ map blue_p (butlast us))
     \<and> white_trail (last us) =
       drop (length (white_trail u @ map white_p (butlast us)) - nat \<lfloor>binary64 (2 / dt)\<rfloor>)
            (white_trail u @ map white_p (butlast us))"
proof (induction n arbitrary: u us)
  case 0
  from 0(1) obtain u1 where u1: "update dt u = Inr u1" and us: "us = [u, u1]"
    by (auto split: sum.splits)
  show ?case unfolding us using update_trails [OF u1 0(2)] by simp
next
  case (Suc n)
  from Suc.prems(1) obtain u1 us' where u1: "update dt u = Inr u1"
    and us': "updates dt (Suc n) u1 = Inr us'" and us: "us = u # us'"
    by (auto split: sum.splits)
  from updates_shape [OF us'] have ne: "us' \<noteq> []" by auto
  have bl: "butlast us = u # butlast us'" and la: "last us = last us'"
    using ne us by simp_all
  note ih = Suc.IH [OF us' Suc.prems(2)]
  have b: "blue_trail u1 @ map blue_p (butlast us')
         = drop (length (blue_trail u @ [blue_p u]) - nat \<lfloor>binary64 (2 / dt)\<rfloor>) (blue_trail u @ [blue_p u])
           @ map blue_p (butlast us')"
    by (simp only: update_trails(1) [OF u1 Suc.prems(2)])
  have w: "white_trail u1 @ map white_p (butlast us')
         = drop (length (white_trail u @ [white_p u]) - nat \<lfloor>binary64 (2 / dt)\<rfloor>) (white_trail u @ [white_p u])
           @ map white_p (butlast us')"
    by (simp only: update_trails(2) [OF u1 Suc.prems(2)])
  have b2: "blue_trail u @ map blue_p (butlast us) = (blue_trail u @ [blue_p u]) @ map blue_p (butlast us')"
    and w2: "white_trail u @ map white_p (butlast us) = (white_trail u @ [white_p u]) @ map white_p (butlast us')"
    unfolding bl by simp_all
  show ?case
    unfolding la b2 w2 using ih unfolding b w drop_last_twice by blast
qed

text \<open>Three calls on the drifting example state, with \<open>delta_t = 1\<close>.\<close>

lemma update_drift:
  "update 1 (drift_universe\<lparr> blue_trail := bt, blue_p := Vector a 4,
                             white_trail := wt, white_p := Vector (a + 3) 8 \<rparr>) =
   Inr (drift_universe\<lparr> blue_trail := drop (length (bt @ [Vector a 4]) - 2) (bt @ [Vector a 4]),
                         blue_p := Vector (a + 1) 4,
                         white_trail := drop (length (wt @ [Vector (a + 3) 8]) - 2) (wt @ [Vector (a + 3) 8]),
                         white_p := Vector (a + 4) 8 \<rparr>)"
proof -
  have fin: "binary64 (2 / 1) < 2 ^ 1024" unfolding quotient_1 by simp
  show ?thesis
    unfolding update_pos [OF zero_less_one fin] quotient_1 Let_def
    by (simp add: drift_universe_def spec_acceleration_def Vector_add_def Vector_mul_def)
qed

lemma updates_drift:
  "updates 1 3 drift_universe =
     Inr [drift_universe,
          drift_universe\<lparr> blue_trail := [Vector 3 4], blue_p := Vector 4 4,
                           white_trail := [Vector 6 8], white_p := Vector 7 8 \<rparr>,
          drift_universe\<lparr> blue_trail := [Vector 3 4, Vector 4 4], blue_p := Vector 5 4,
                           white_trail := [Vector 6 8, Vector 7 8], white_p := Vector 8 8 \<rparr>,
          drift_universe\<lparr> blue_trail := [Vector 4 4, Vector 5 4], blue_p := Vector 6 4,
                           white_trail := [Vector 7 8, Vector 8 8], white_p := Vector 9 8 \<rparr>]"
proof -
  have s0: "drift_universe = drift_universe\<lparr> blue_trail := [], blue_p := Vector 3 4,
                             white_trail := [], white_p := Vector (3 + 3) 8 \<rparr>"
    by (simp add: drift_universe_def)
  have u1: "update 1 drift_universe =
      Inr (drift_universe\<lparr> blue_trail := [Vector 3 4], blue_p := Vector 4 4,
                           white_trail := [Vector 6 8], white_p := Vector 7 8 \<rparr>)"
    by (subst s0, subst update_drift) simp
  have u2: "update 1 (drift_universe\<lparr> blue_trail := [Vector 3 4], blue_p := Vector 4 4,
                           white_trail := [Vector 6 8], white_p := Vector 7 8 \<rparr>) =
      Inr (drift_universe\<lparr> blue_trail := [Vector 3 4, Vector 4 4], blue_p := Vector 5 4,
                           white_trail := [Vector 6 8, Vector 7 8], white_p := Vector 8 8 \<rparr>)"
    using update_drift [where bt = "[Vector 3 4]" and a = 4 and wt = "[Vector 6 8]"] by simp
  have u3: "update 1 (drift_universe\<lparr> blue_trail := [Vector 3 4, Vector 4 4], blue_p := Vector 5 4,
                           white_trail := [Vector 6 8, Vector 7 8], white_p := Vector 8 8 \<rparr>) =
      Inr (drift_universe\<lparr> blue_trail := [Vector 4 4, Vector 5 4], blue_p := Vector 6 4,
                           white_trail := [Vector 7 8, Vector 8 8], white_p := Vector 9 8 \<rparr>)"
    using update_drift [where bt = "[Vector 3 4, Vector 4 4]" and a = 5 and wt = "[Vector 6 8, Vector 7 8]"] by simp
  show ?thesis
    by (simp add: numeral_3_eq_3 u1 u2 u3)
qed

text \<open>
  C3.  For \<open>delta_t > 0\<close> and \<open>n > floor (2.0 / delta_t)\<close>, after \<open>n\<close> calls of
  \<open>update(delta_t)\<close> each satellite's trail has exactly \<open>floor (2.0 / delta_t)\<close>
  entries: the positions the satellite had before the most recent that many calls,
  oldest first.  This holds from any starting state, whatever its trails.  The bound
  is the floor of the float \<open>2.0 / delta_t\<close>, the rounded quotient that the loop
  compares the length with, and it is finite.
\<close>

theorem trail_bound:
  assumes "0 < dt" and "binary64 (2 / dt) < 2 ^ 1024"
    and "updates dt n u = Inr us" and "nat \<lfloor>binary64 (2 / dt)\<rfloor> < n"
  shows "length (blue_trail (last us)) = nat \<lfloor>binary64 (2 / dt)\<rfloor>
       \<and> blue_trail (last us) = drop (n - nat \<lfloor>binary64 (2 / dt)\<rfloor>) (map blue_p (butlast us))
       \<and> length (white_trail (last us)) = nat \<lfloor>binary64 (2 / dt)\<rfloor>
       \<and> white_trail (last us) = drop (n - nat \<lfloor>binary64 (2 / dt)\<rfloor>) (map white_p (butlast us))"
proof -
  from assms(4) obtain m where n: "n = Suc m" by (cases n) auto
  from updates_shape [OF assms(3)] have len: "length (butlast us) = n" by simp
  have shift: "drop (length (xs @ ys) - nat \<lfloor>binary64 (2 / dt)\<rfloor>) (xs @ ys)
             = drop (n - nat \<lfloor>binary64 (2 / dt)\<rfloor>) ys"
    if "length ys = n" for xs ys :: "Vector list"
    using that assms(4) by simp
  from updates_trails [OF assms(3) [unfolded n] assms(2)]
  have "blue_trail (last us) = drop (n - nat \<lfloor>binary64 (2 / dt)\<rfloor>) (map blue_p (butlast us))"
    and "white_trail (last us) = drop (n - nat \<lfloor>binary64 (2 / dt)\<rfloor>) (map white_p (butlast us))"
    using len by (simp_all only: shift length_map)
  then show ?thesis using len assms(4) by simp
qed

theorem trail_bound_witness:
  "(0::real) < 1 \<and> binary64 (2 / 1) < 2 ^ 1024 \<and> nat \<lfloor>binary64 (2 / 1)\<rfloor> = 2
   \<and> updates 1 3 drift_universe =
     Inr [drift_universe,
          drift_universe\<lparr> blue_trail := [Vector 3 4], blue_p := Vector 4 4,
                           white_trail := [Vector 6 8], white_p := Vector 7 8 \<rparr>,
          drift_universe\<lparr> blue_trail := [Vector 3 4, Vector 4 4], blue_p := Vector 5 4,
                           white_trail := [Vector 6 8, Vector 7 8], white_p := Vector 8 8 \<rparr>,
          drift_universe\<lparr> blue_trail := [Vector 4 4, Vector 5 4], blue_p := Vector 6 4,
                           white_trail := [Vector 7 8, Vector 8 8], white_p := Vector 9 8 \<rparr>]
   \<and> [Vector 4 4, Vector 5 4] = drop (3 - 2) [Vector 3 4, Vector 4 4, Vector 5 4]
   \<and> [Vector 7 8, Vector 8 8] = drop (3 - 2) [Vector 6 8, Vector 7 8, Vector 8 8]"
proof -
  have fin: "binary64 (2 / 1) < 2 ^ 1024" unfolding quotient_1 by simp
  have k: "nat \<lfloor>binary64 (2 / 1)\<rfloor> = 2" unfolding quotient_1 by simp
  have n: "nat \<lfloor>binary64 (2 / 1)\<rfloor> < 3" unfolding k by simp
  from trail_bound [OF zero_less_one fin updates_drift n] fin k updates_drift
  show ?thesis by (simp add: drift_universe_def)
qed

section \<open>The first step from the initial state\<close>

lemma sqrt40000: "sqrt 40000 = 200"
  by (rule real_sqrt_unique) simp_all

lemma sqrt25000_bounds: "158112 / 1000 < sqrt 25000" "sqrt 25000 < 158116 / 1000"
  by (rule real_less_rsqrt, simp add: power2_eq_square) (rule real_less_lsqrt, simp_all add: power2_eq_square)

lemma sqrt40900_lower: "200 < sqrt 40900"
  by (rule real_less_rsqrt) simp

lemma Universe_init_fields:
  "yellow_r Universe_init = 50" "yellow_m Universe_init = 5000000" "yellow_p Universe_init = Vector 0 0"
  "blue_r Universe_init = 15" "blue_m Universe_init = 3000" "blue_p Universe_init = Vector 200 0"
  "blue_v Universe_init = Vector 0 (- sqrt 25000)" "blue_trail Universe_init = []"
  "white_r Universe_init = 5" "white_m Universe_init = 100" "white_p Universe_init = Vector 200 30"
  "white_v Universe_init = Vector 0 (- sqrt (5000000 / sqrt 40900))" "white_trail Universe_init = []"
  by (simp_all add: Universe_init_def Let_def G_def Vector_abs_def Vector_sub_def sqrt40000)

lemma white_speed_bounds: "0 < sqrt (5000000 / sqrt 40900)" "sqrt (5000000 / sqrt 40900) < sqrt 25000"
proof -
  have "0 < sqrt 40900" using sqrt40900_lower by simp
  then show "0 < sqrt (5000000 / sqrt 40900)" by simp
  have "5000000 < 25000 * sqrt 40900"
    using sqrt40900_lower by linarith
  with \<open>0 < sqrt 40900\<close> have "5000000 / sqrt 40900 < 25000"
    by (simp add: pos_divide_less_eq)
  then show "sqrt (5000000 / sqrt 40900) < sqrt 25000"
    by (simp only: real_sqrt_less_iff)
qed

lemma init_positions:
  "Vector_add (blue_p Universe_init) (Vector_mul (blue_v Universe_init) (5 / 100))
     = Vector 200 (- sqrt 25000 / 20)"
  "Vector_add (white_p Universe_init) (Vector_mul (white_v Universe_init) (5 / 100))
     = Vector 200 (30 - sqrt (5000000 / sqrt 40900) / 20)"
  by (simp_all add: Universe_init_fields Vector_add_def Vector_mul_def)

lemma init_apart:
  "Vector 200 (30 - sqrt (5000000 / sqrt 40900) / 20) \<noteq> Vector 200 (- sqrt 25000 / 20)"
proof -
  have "- sqrt 25000 / 20 < 30 - sqrt (5000000 / sqrt 40900) / 20"
    using white_speed_bounds(2) by linarith
  then have "30 - sqrt (5000000 / sqrt 40900) / 20 \<noteq> - sqrt 25000 / 20"
    by (rule less_imp_neq [THEN not_sym])
  then show ?thesis
    by (simp only: Vector.inject simp_thms not_False_eq_True)
qed

lemma update_init:
  "update (5 / 100) Universe_init =
     Inr (Universe_init\<lparr>
       blue_trail := [Vector 200 0],
       blue_p := Vector 200 (- sqrt 25000 / 20),
       blue_v := Vector_add (Vector 0 (- sqrt 25000))
          (Vector_mul (spec_acceleration 5000000 (Vector 200 (- sqrt 25000 / 20))) (5 / 100)),
       white_trail := [Vector 200 30],
       white_p := Vector 200 (30 - sqrt (5000000 / sqrt 40900) / 20),
       white_v := Vector_add (Vector 0 (- sqrt (5000000 / sqrt 40900)))
          (Vector_mul (Vector_add
              (spec_acceleration 5000000 (Vector 200 (30 - sqrt (5000000 / sqrt 40900) / 20)))
              (spec_acceleration 3000 (Vector_sub (Vector 200 (30 - sqrt (5000000 / sqrt 40900) / 20))
                                                   (Vector 200 (- sqrt 25000 / 20)))))
            (5 / 100)) \<rparr>)"
proof -
  have pos: "0 < (5 / 100 :: real)" by simp
  have fin: "binary64 (2 / (5 / 100)) < 2 ^ 1024" unfolding quotient_5_100 by simp
  have k: "nat \<lfloor>binary64 (2 / (5 / 100))\<rfloor> = 40" unfolding quotient_5_100 by simp
  have z: "Vector_sub v (Vector 0 0) = v" for v by (simp add: Vector_sub_def)
  show ?thesis
    unfolding update_pos [OF pos fin] Let_def init_positions k
    using init_apart
    by (simp add: Universe_init_fields z)
qed

lemma blue_vy_after:
  "vec_y (Vector_add (Vector 0 (- sqrt 25000))
          (Vector_mul (spec_acceleration 5000000 (Vector 200 (- sqrt 25000 / 20))) (5 / 100)))
   = - sqrt 25000 + 12500 * sqrt 25000 / sqrt (80125 / 2) ^ 3"
proof -
  have "200 * 200 + (- sqrt 25000 / 20) * (- sqrt 25000 / 20) = (80125 / 2 :: real)"
    by (simp add: field_simps)
  then have "Vector_abs (Vector 200 (- sqrt 25000 / 20)) = sqrt (80125 / 2)"
    by (simp only: Vector_abs_def Vector.sel)
  then show ?thesis
    by (simp add: spec_acceleration_def Vector_add_def Vector_mul_def G_def)
qed

lemma blue_vy_gain: "0 < 12500 * sqrt 25000 / sqrt (80125 / 2) ^ 3"
  "12500 * sqrt 25000 / sqrt (80125 / 2) ^ 3 < 1 / 4"
proof -
  have n: "200 < sqrt (80125 / 2)" by (rule real_less_rsqrt) simp
  then have n0: "0 < sqrt (80125 / 2) ^ 3" by simp
  have s0: "0 < sqrt 25000" by simp
  from n0 s0 show "0 < 12500 * sqrt 25000 / sqrt (80125 / 2) ^ 3" by simp
  have "200 ^ 3 < sqrt (80125 / 2) ^ 3"
    using n by (rule power_strict_mono) simp_all
  then have "8000000 < sqrt (80125 / 2) ^ 3" by simp
  moreover have "12500 * sqrt 25000 < 2000000" using sqrt25000_bounds(2) by linarith
  ultimately have "12500 * sqrt 25000 < 1 / 4 * sqrt (80125 / 2) ^ 3" by linarith
  with n0 show "12500 * sqrt 25000 / sqrt (80125 / 2) ^ 3 < 1 / 4"
    by (simp add: pos_divide_less_eq)
qed

lemma update_init_blue:
  obtains u' where "update (5 / 100) Universe_init = Inr u'"
    and "blue_p u' = Vector 200 (- sqrt 25000 / 20)"
    and "blue_v u' = Vector_add (Vector 0 (- sqrt 25000))
          (Vector_mul (spec_acceleration 5000000 (Vector 200 (- sqrt 25000 / 20))) (5 / 100))"
  by (rule that [OF update_init]) simp_all

text \<open>
  C6, as the program has it.  The first satellite starts at \<open>(200, 0)\<close> with the
  velocity \<open>(0, -sqrt (5000000 / 200))\<close>, about \<open>(0, -158.11)\<close>.  The call
  \<open>update(0.05)\<close> on the initial state returns; it leaves the satellite at \<open>x = 200\<close>
  and \<open>y\<close> within \<open>0.0001\<close> of \<open>-7.9057\<close>, and the \<open>y\<close> component of its velocity
  is then greater than at the start, by less than \<open>0.25\<close>: the anchor pulls the
  satellite, now below it in \<open>y\<close>, back up.
\<close>

theorem initial_orbit_step:
  "blue_p Universe_init = Vector 200 0
   \<and> blue_v Universe_init = Vector 0 (- sqrt (5000000 / 200))
   \<and> \<bar>sqrt (5000000 / 200) - 15811 / 100\<bar> < 1 / 100
   \<and> (\<exists>u'. update (5 / 100) Universe_init = Inr u'
          \<and> vec_x (blue_p u') = 200
          \<and> \<bar>vec_y (blue_p u') - (- 79057 / 10000)\<bar> < 1 / 10000
          \<and> vec_y (blue_v Universe_init) < vec_y (blue_v u')
          \<and> vec_y (blue_v u') < vec_y (blue_v Universe_init) + 1 / 4)"
proof -
  have s: "(5000000 / 200 :: real) = 25000" by simp
  have a: "\<bar>sqrt 25000 - 15811 / 100\<bar> < 1 / 100"
    using sqrt25000_bounds by linarith
  obtain u' where upd: "update (5 / 100) Universe_init = Inr u'"
    and bp: "blue_p u' = Vector 200 (- sqrt 25000 / 20)"
    and bv: "blue_v u' = Vector_add (Vector 0 (- sqrt 25000))
          (Vector_mul (spec_acceleration 5000000 (Vector 200 (- sqrt 25000 / 20))) (5 / 100))"
    by (rule update_init_blue)
  have vy: "vec_y (blue_v u') = - sqrt 25000 + 12500 * sqrt 25000 / sqrt (80125 / 2) ^ 3"
    by (simp only: bv blue_vy_after)
  have v0: "vec_y (blue_v Universe_init) = - sqrt 25000"
    by (simp add: Universe_init_fields)
  have px: "vec_x (blue_p u') = 200" by (simp add: bp)
  have "vec_y (blue_p u') = - sqrt 25000 / 20" by (simp add: bp)
  then have py: "\<bar>vec_y (blue_p u') - (- 79057 / 10000)\<bar> < 1 / 10000"
    using sqrt25000_bounds by linarith
  have lo: "vec_y (blue_v Universe_init) < vec_y (blue_v u')"
    unfolding vy v0 using blue_vy_gain(1) by linarith
  have hi: "vec_y (blue_v u') < vec_y (blue_v Universe_init) + 1 / 4"
    unfolding vy v0 using blue_vy_gain(2) by linarith
  from upd px py lo hi
  have "\<exists>u'. update (5 / 100) Universe_init = Inr u'
          \<and> vec_x (blue_p u') = 200
          \<and> \<bar>vec_y (blue_p u') - (- 79057 / 10000)\<bar> < 1 / 10000
          \<and> vec_y (blue_v Universe_init) < vec_y (blue_v u')
          \<and> vec_y (blue_v u') < vec_y (blue_v Universe_init) + 1 / 4"
    by blast
  moreover have "blue_p Universe_init = Vector 200 0"
    by (simp add: Universe_init_fields)
  moreover have "blue_v Universe_init = Vector 0 (- sqrt (5000000 / 200))"
    unfolding s by (simp add: Universe_init_fields)
  moreover have "\<bar>sqrt (5000000 / 200) - 15811 / 100\<bar> < 1 / 100"
    unfolding s by (rule a)
  ultimately show ?thesis by blast
qed

text \<open>
  C6, as stated, fails in its last part: after the call the \<open>y\<close> component of the
  first satellite's velocity is not below its initial value.
\<close>

theorem blue_vy_less_negative_counterexample:
  "\<not> isl (update (5 / 100) Universe_init)
   \<and> \<not> vec_y (blue_v (projr (update (5 / 100) Universe_init))) < vec_y (blue_v Universe_init)"
proof -
  obtain u' where upd: "update (5 / 100) Universe_init = Inr u'"
    and bv: "blue_v u' = Vector_add (Vector 0 (- sqrt 25000))
          (Vector_mul (spec_acceleration 5000000 (Vector 200 (- sqrt 25000 / 20))) (5 / 100))"
    by (rule update_init_blue)
  have vy: "vec_y (blue_v u') = - sqrt 25000 + 12500 * sqrt 25000 / sqrt (80125 / 2) ^ 3"
    by (simp only: bv blue_vy_after)
  have v0: "vec_y (blue_v Universe_init) = - sqrt 25000"
    by (simp add: Universe_init_fields)
  have "\<not> vec_y (blue_v u') < vec_y (blue_v Universe_init)"
    unfolding vy v0 using blue_vy_gain(1) by linarith
  then show ?thesis
    unfolding upd by simp
qed

section \<open>The scene\<close>

lemma update_fixed:
  assumes "update dt u = Inr u'"
  shows "yellow_p u' = yellow_p u" "yellow_r u' = yellow_r u" "blue_r u' = blue_r u"
    "white_r u' = white_r u"
  using assms by (elim update_InrE, simp)+

lemma updates_fixed:
  "updates dt n u0 = Inr us \<Longrightarrow> u \<in> set us \<Longrightarrow>
     yellow_p u = yellow_p u0 \<and> yellow_r u = yellow_r u0 \<and> blue_r u = blue_r u0
     \<and> white_r u = white_r u0"
proof (induction n arbitrary: u0 us)
  case 0
  then show ?case by auto
next
  case (Suc n)
  from Suc.prems(1) obtain u1 us' where u1: "update dt u0 = Inr u1"
    and us': "updates dt n u1 = Inr us'" and us: "us = u0 # us'"
    by (auto split: sum.splits)
  from Suc.prems(2) us consider "u = u0" | "u \<in> set us'" by auto
  then show ?case
  proof cases
    case 1
    then show ?thesis by simp
  next
    case 2
    from Suc.IH [OF us' 2] update_fixed [OF u1] show ?thesis by simp
  qed
qed

text \<open>
  C8.  In every state of a run of \<open>update\<close> calls, \<open>scene\<close> is the list of three
  circles: the anchor's, the first satellite's and the second satellite's, in that
  order, each from the body's current position and radius.  The anchor's circle and
  the satellites' radii are those of the state the run started from.
\<close>

theorem scene_order:
  assumes "updates dt n u0 = Inr us" and "u \<in> set us"
  shows "scene u = Scene [Shape_Circle (Circle (yellow_p u) (yellow_r u)),
                          Shape_Circle (Circle (blue_p u) (blue_r u)),
                          Shape_Circle (Circle (white_p u) (white_r u))]
       \<and> length (shapes (scene u)) = 3
       \<and> scene u = Scene [Shape_Circle (Circle (yellow_p u0) (yellow_r u0)),
                            Shape_Circle (Circle (blue_p u) (blue_r u0)),
                            Shape_Circle (Circle (white_p u) (white_r u0))]"
  using updates_fixed [OF assms] by (simp add: scene_def)

lemma updates_init:
  "updates (5 / 100) 1 Universe_init = Inr [Universe_init, projr (update (5 / 100) Universe_init)]"
  unfolding One_nat_def updates.simps update_init by simp

theorem scene_order_witness:
  "updates (5 / 100) 1 Universe_init = Inr [Universe_init, projr (update (5 / 100) Universe_init)]
   \<and> projr (update (5 / 100) Universe_init) \<in> set [Universe_init, projr (update (5 / 100) Universe_init)]
   \<and> scene (projr (update (5 / 100) Universe_init)) =
       Scene [Shape_Circle (Circle (Vector 0 0) 50),
              Shape_Circle (Circle (Vector 200 (- sqrt 25000 / 20)) 15),
              Shape_Circle (Circle (Vector 200 (30 - sqrt (5000000 / sqrt 40900) / 20)) 5)]"
proof -
  have m: "projr (update (5 / 100) Universe_init) \<in> set [Universe_init, projr (update (5 / 100) Universe_init)]"
    by simp
  have bp: "blue_p (projr (update (5 / 100) Universe_init)) = Vector 200 (- sqrt 25000 / 20)"
    and wp: "white_p (projr (update (5 / 100) Universe_init)) = Vector 200 (30 - sqrt (5000000 / sqrt 40900) / 20)"
    unfolding update_init by simp_all
  from scene_order [OF updates_init m]
  have "scene (projr (update (5 / 100) Universe_init)) =
       Scene [Shape_Circle (Circle (yellow_p Universe_init) (yellow_r Universe_init)),
              Shape_Circle (Circle (blue_p (projr (update (5 / 100) Universe_init))) (blue_r Universe_init)),
              Shape_Circle (Circle (white_p (projr (update (5 / 100) Universe_init))) (white_r Universe_init))]"
    by blast
  then have "scene (projr (update (5 / 100) Universe_init)) =
       Scene [Shape_Circle (Circle (Vector 0 0) 50),
              Shape_Circle (Circle (Vector 200 (- sqrt 25000 / 20)) 15),
              Shape_Circle (Circle (Vector 200 (30 - sqrt (5000000 / sqrt 40900) / 20)) 5)]"
    by (simp only: bp wp Universe_init_fields)
  with updates_init m show ?thesis by blast
qed

section \<open>Bounding boxes\<close>



section \<open>Translation\<close>

lemma Vector_add_assoc: "Vector_add (Vector_add p d1) d2 = Vector_add p (Vector_add d1 d2)"
  by (simp add: Vector_add_def)

lemma Vector_add_zero: "Vector_add p (Vector 0 0) = p"
  by (simp add: Vector_add_def)

lemma Vector_add_f64_zero: "Vector_is_f64 p \<Longrightarrow> Vector_add_f64 p (Vector 0 0) = p"
  by (cases p) (simp add: Vector_add_f64_def Vector_is_f64_def)

lemma map_Vector_add_f64_zero:
  "list_all Vector_is_f64 ps \<Longrightarrow> map (\<lambda>p. Vector_add_f64 p (Vector 0 0)) ps = ps"
  by (induction ps) (simp_all add: Vector_add_f64_zero)

text \<open>
  C9, as the program has it.  Translating a shape keeps its variant: a circle's centre
  and each point of a curve are shifted by the displacement, and a circle's radius is
  unchanged; \<open>d + s\<close> is \<open>s + d\<close>.  This is so in exact arithmetic and with every
  addition rounded to binary64.  Translation by \<open>Vector(0, 0)\<close> is the identity, in
  exact arithmetic and also with rounding on a shape whose points are floats, because
  \<open>x + 0.0\<close> is exact.  Translating by \<open>d1\<close> and then by \<open>d2\<close> is translating by
  \<open>d1 + d2\<close> in exact arithmetic.
\<close>

theorem translation_group_action:
  "Shape_add (Shape_add s d1) d2 = Shape_add s (Vector_add d1 d2)
   \<and> Shape_add s (Vector 0 0) = s
   \<and> Shape_radd s d = Shape_add s d
   \<and> Shape_add (Shape_Circle (Circle c r)) d = Shape_Circle (Circle (Vector_add c d) r)
   \<and> Shape_add (Shape_Curve (Curve ps)) d = Shape_Curve (Curve (map (\<lambda>p. Vector_add p d) ps))
   \<and> Shape_add_f64 (Shape_Circle (Circle c r)) d = Shape_Circle (Circle (Vector_add_f64 c d) r)
   \<and> Shape_add_f64 (Shape_Curve (Curve ps)) d
       = Shape_Curve (Curve (map (\<lambda>p. Vector_add_f64 p d) ps))
   \<and> (Shape_points_f64 s \<longrightarrow> Shape_add_f64 s (Vector 0 0) = s)"
proof (cases s)
  case (Shape_Circle c')
  then show ?thesis
    by (simp add: Circle_add_def Circle_radd_def Curve_add_def Vector_add_assoc Vector_add_zero
        Circle_add_f64_def Curve_add_f64_def Vector_add_f64_zero)
next
  case (Shape_Curve c')
  then show ?thesis
    by (simp add: Circle_add_def Curve_add_def Curve_radd_def Vector_add_assoc Vector_add_zero
        Circle_add_f64_def Curve_add_f64_def map_Vector_add_f64_zero)
qed

theorem translation_group_action_witness:
  "Shape_points_f64 (Shape_Circle (Circle (Vector 1 0) 1))
   \<and> Shape_add_f64 (Shape_Circle (Circle (Vector 1 0) 1)) (Vector 0 0)
       = Shape_Circle (Circle (Vector 1 0) 1)
   \<and> Shape_points_f64 (Shape_Curve (Curve [Vector 1 0, Vector 2 4]))
   \<and> Shape_add_f64 (Shape_Curve (Curve [Vector 1 0, Vector 2 4])) (Vector 0 0)
       = Shape_Curve (Curve [Vector 1 0, Vector 2 4])"
  using translation_group_action [where s = "Shape_Circle (Circle (Vector 1 0) 1)"]
        translation_group_action [where s = "Shape_Curve (Curve [Vector 1 0, Vector 2 4])"]
  by (simp add: Vector_is_f64_def binary64_0 binary64_1 binary64_2 binary64_4)

text \<open>
  C9, as stated, fails for floats: \<open>1.0 + 2 ** -53\<close> rounds back to \<open>1.0\<close>, so the
  circle with centre \<open>(1.0, 0.0)\<close> moved twice by \<open>(2 ** -53, 0.0)\<close> keeps its
  centre, while moved once by the sum \<open>(2 ** -52, 0.0)\<close> it does not.
\<close>

theorem translation_f64_counterexample:
  "Circle_add_f64 (Circle_add_f64 (Circle (Vector 1 0) 1) (Vector (1 / 2 ^ 53) 0)) (Vector (1 / 2 ^ 53) 0)
     = Circle (Vector 1 0) 1
   \<and> Circle_add_f64 (Circle (Vector 1 0) 1) (Vector_add_f64 (Vector (1 / 2 ^ 53) 0) (Vector (1 / 2 ^ 53) 0))
     = Circle (Vector (1 + 1 / 2 ^ 52) 0) 1
   \<and> Circle_add_f64 (Circle_add_f64 (Circle (Vector 1 0) 1) (Vector (1 / 2 ^ 53) 0)) (Vector (1 / 2 ^ 53) 0)
     \<noteq> Circle_add_f64 (Circle (Vector 1 0) 1) (Vector_add_f64 (Vector (1 / 2 ^ 53) 0) (Vector (1 / 2 ^ 53) 0))"
proof -
  have l: "Circle_add_f64 (Circle_add_f64 (Circle (Vector 1 0) 1) (Vector (1 / 2 ^ 53) 0)) (Vector (1 / 2 ^ 53) 0)
     = Circle (Vector 1 0) 1"
    unfolding Circle_add_f64_def Vector_add_f64_def Circle.sel Vector.sel
    by (simp only: binary64_one_plus_half_ulp add_0_left binary64_0)
  have r: "Circle_add_f64 (Circle (Vector 1 0) 1) (Vector_add_f64 (Vector (1 / 2 ^ 53) 0) (Vector (1 / 2 ^ 53) 0))
     = Circle (Vector (1 + 1 / 2 ^ 52) 0) 1"
    unfolding Circle_add_f64_def Vector_add_f64_def Circle.sel Vector.sel
    by (simp only: binary64_ulp binary64_one_plus_ulp add_0_left binary64_0)
  have "Circle (Vector 1 0) 1 \<noteq> Circle (Vector (1 + 1 / 2 ^ 52) 0) 1"
    by simp
  with l r show ?thesis by simp
qed

text \<open>
  C10, in exact arithmetic.  The bounding box of a translated circle is the translated
  bounding box of the circle, and the tuple the renderer draws for a circle is that of
  the bounding box of the circle moved by the canvas origin.
\<close>

theorem bbox_commutes_with_translation:
  "Circle_bbox (Circle_add c d) = BBox_add (Circle_bbox c) d
   \<and> Circle_bbox (Circle_radd c d) = BBox_radd (Circle_bbox c) d
   \<and> render_circle canvas_o c = BBox_as_tuple (Circle_bbox (Circle_radd c canvas_o))"
  by (simp add: Circle_bbox_def Circle_add_def Circle_radd_def BBox_add_def BBox_radd_def
      render_circle_def BBox_as_tuple_def Vector_add_def algebra_simps)

text \<open>
  C10, as stated, fails for floats: for the circle with centre \<open>(2 ** -53, 0.0)\<close> and
  radius \<open>1.0\<close> moved by \<open>(1.0, 0.0)\<close>, the box of the moved circle starts at
  \<open>x = 0.0\<close> and the moved box of the circle at \<open>x = 2 ** -53\<close>.
\<close>

theorem bbox_translation_f64_counterexample:
  "vec_x (bbox_min (Circle_bbox_f64 (Circle_add_f64 (Circle (Vector (1 / 2 ^ 53) 0) 1) (Vector 1 0)))) = 0
   \<and> vec_x (bbox_min (BBox_add_f64 (Circle_bbox_f64 (Circle (Vector (1 / 2 ^ 53) 0) 1)) (Vector 1 0)))
       = 1 / 2 ^ 53
   \<and> Circle_bbox_f64 (Circle_add_f64 (Circle (Vector (1 / 2 ^ 53) 0) 1) (Vector 1 0))
       \<noteq> BBox_add_f64 (Circle_bbox_f64 (Circle (Vector (1 / 2 ^ 53) 0) 1)) (Vector 1 0)"
proof -
  have c: "(1 / 2 ^ 53 + 1 :: real) = 1 + 1 / 2 ^ 53" by simp
  have z: "(1 - 1 :: real) = 0" by simp
  have h: "(1 / 2 ^ 53 - 1 + 1 :: real) = 1 / 2 ^ 53" by simp
  have l: "vec_x (bbox_min (Circle_bbox_f64 (Circle_add_f64 (Circle (Vector (1 / 2 ^ 53) 0) 1) (Vector 1 0)))) = 0"
    unfolding Circle_bbox_f64_def Circle_add_f64_def Vector_add_f64_def Circle.sel Vector.sel BBox.sel
    by (simp only: c binary64_one_plus_half_ulp z binary64_0)
  have r: "vec_x (bbox_min (BBox_add_f64 (Circle_bbox_f64 (Circle (Vector (1 / 2 ^ 53) 0) 1)) (Vector 1 0)))
       = 1 / 2 ^ 53"
    unfolding BBox_add_f64_def Circle_bbox_f64_def Vector_add_f64_def Circle.sel Vector.sel BBox.sel
    by (simp only: binary64_below_minus_one h binary64_half_ulp)
  have "(0::real) \<noteq> 1 / 2 ^ 53" by simp
  with l r have "Circle_bbox_f64 (Circle_add_f64 (Circle (Vector (1 / 2 ^ 53) 0) 1) (Vector 1 0))
       \<noteq> BBox_add_f64 (Circle_bbox_f64 (Circle (Vector (1 / 2 ^ 53) 0) 1)) (Vector 1 0)"
    by metis
  with l r show ?thesis by blast
qed

end
